theory Spec2Isabelle
  imports Main "HOL-Library.Sublist"
begin

section \<open>The restaurant-suggestion worker (\<^verbatim>\<open>lambda_functions/LF2.py\<close>)\<close>

text \<open>
  The worker receives a batch of queue messages, and for each message parses the JSON
  payload, asks the search index for random restaurant identifiers of the requested
  cuisine, reads the restaurants from the key-value store, formats an e-mail and sends
  it. This theory embeds the functions of \<^verbatim>\<open>LF2.py\<close> and settles the claims made about
  them.

  Conventions of the embedding.
  \<^item> A Python string is a \<open>string\<close>, the list of its characters, each a code point
    below 256; text with other code points is outside the model. Whitespace, lower case
    and printability are Python's on these characters, and so is title case but for the
    two characters (U+00B5 and U+00FF) whose title case is no such code point.
  \<^item> A value decoded from JSON is a \<open>json\<close>. Numbers are integers: floating-point
    numbers are outside the model.
  \<^item> An exception is a value of type \<open>exn\<close>; a function that may raise returns
    \<open>exn + 'a\<close>, with \<open>Inl\<close> for the exception.
  \<^item> The interpreter's library (\<^verbatim>\<open>json.loads\<close>) and the remote services (search index,
    key-value store, mail service, queue) are fields of the record \<open>env\<close>. Every call
    to a service is appended to a list of events; a service's answer may depend on all
    events before the call.
  \<^item> The output of \<^verbatim>\<open>print\<close> is not modelled.
\<close>

subsection \<open>Python values\<close>

datatype exn =
    ValueError
  | TypeError
  | AttributeError
  | JSONDecodeError
  | RuntimeError nat
  | ClientError
  | ServiceError string

datatype json =
    JNull
  | JBool bool
  | JInt int
  | JStr string
  | JArr "json list"
  | JObj "(string \<times> json) list"

text \<open>Truth value testing, as \<^verbatim>\<open>if v:\<close> and \<^verbatim>\<open>v or d\<close> do it.\<close>

fun truthy :: "json \<Rightarrow> bool" where
  "truthy JNull = False"
| "truthy (JBool b) = b"
| "truthy (JInt i) = (i \<noteq> 0)"
| "truthy (JStr s) = (s \<noteq> [])"
| "truthy (JArr xs) = (xs \<noteq> [])"
| "truthy (JObj kvs) = (kvs \<noteq> [])"

definition py_or :: "json \<Rightarrow> json \<Rightarrow> json" where
  "py_or a b = (if truthy a then a else b)"

text \<open>
  \<^verbatim>\<open>d.get(k, default)\<close>: only a dict has the method, every other value raises
  \<^verbatim>\<open>AttributeError\<close>. \<^verbatim>\<open>d.get(k)\<close> is \<open>py_get d k JNull\<close>.
\<close>

fun py_get :: "json \<Rightarrow> string \<Rightarrow> json \<Rightarrow> exn + json" where
  "py_get (JObj kvs) k d = (case map_of kvs k of Some v \<Rightarrow> Inr v | None \<Rightarrow> Inr d)"
| "py_get _ k d = Inl AttributeError"

subsection \<open>Python strings\<close>

definition digits :: string where
  "digits = ''0123456789''"

fun decimal :: "nat \<Rightarrow> string" where
  "decimal n = (if n < 10 then [digits ! n] else decimal (n div 10) @ [digits ! (n mod 10)])"

declare decimal.simps [simp del]

definition str_int :: "int \<Rightarrow> string" where
  "str_int i = (if i < 0 then CHR ''-'' # decimal (nat (- i)) else decimal (nat i))"

definition hex_digits :: string where
  "hex_digits = ''0123456789abcdef''"

text \<open>\<^verbatim>\<open>repr\<close> of a string: the quote is \<^verbatim>\<open>"\<close> when the string has a \<^verbatim>\<open>'\<close> and no \<^verbatim>\<open>"\<close>.\<close>

definition repr_quote :: "string \<Rightarrow> char" where
  "repr_quote s = (if CHR 0x27 \<in> set s \<and> CHR 0x22 \<notin> set s then CHR 0x22 else CHR 0x27)"

definition py_isprintable :: "char \<Rightarrow> bool" where
  "py_isprintable c \<longleftrightarrow>
     (let n = (of_char c :: nat) in \<not> (n < 32 \<or> (127 \<le> n \<and> n \<le> 160) \<or> n = 173))"

definition repr_char :: "char \<Rightarrow> char \<Rightarrow> string" where
  "repr_char q c =
     (if c = q \<or> c = CHR 0x5C then [CHR 0x5C, c]
      else if c = CHR 0x09 then [CHR 0x5C, CHR ''t'']
      else if c = CHR 0x0A then [CHR 0x5C, CHR ''n'']
      else if c = CHR 0x0D then [CHR 0x5C, CHR ''r'']
      else if \<not> py_isprintable c
        then [CHR 0x5C, CHR ''x'', hex_digits ! ((of_char c :: nat) div 16),
              hex_digits ! ((of_char c :: nat) mod 16)]
      else [c])"

definition repr_str :: "string \<Rightarrow> string" where
  "repr_str s = (let q = repr_quote s in q # concat (map (repr_char q) s) @ [q])"

fun join :: "string \<Rightarrow> string list \<Rightarrow> string" where
  "join sep [] = []"
| "join sep [x] = x"
| "join sep (x # y # ys) = x @ sep @ join sep (y # ys)"

fun py_repr :: "json \<Rightarrow> string" where
  "py_repr JNull = ''None''"
| "py_repr (JBool b) = (if b then ''True'' else ''False'')"
| "py_repr (JInt i) = str_int i"
| "py_repr (JStr s) = repr_str s"
| "py_repr (JArr xs) = ''['' @ join '', '' (map py_repr xs) @ '']''"
| "py_repr (JObj kvs) =
     ''{'' @ join '', '' (map (\<lambda>kv. repr_str (fst kv) @ '': '' @ py_repr (snd kv)) kvs) @ ''}''"

text \<open>\<^verbatim>\<open>str(v)\<close>, which is what an f-string field \<^verbatim>\<open>{v}\<close> inserts.\<close>

definition py_str :: "json \<Rightarrow> string" where
  "py_str v = (case v of JStr s \<Rightarrow> s | _ \<Rightarrow> py_repr v)"

text \<open>\<^verbatim>\<open>str.isspace\<close> on a character.\<close>

definition py_isspace :: "char \<Rightarrow> bool" where
  "py_isspace c \<longleftrightarrow>
     c \<in> set [CHR 0x09, CHR 0x0A, CHR 0x0B, CHR 0x0C, CHR 0x0D,
              CHR 0x1C, CHR 0x1D, CHR 0x1E, CHR 0x1F, CHR 0x20, CHR 0x85, CHR 0xA0]"

definition strip :: "string \<Rightarrow> string" where
  "strip s = rev (dropWhile py_isspace (rev (dropWhile py_isspace s)))"

text \<open>
  The letters that have another case: the ASCII letters, and the letters from U+00C0 to
  U+00DE and from U+00E0 to U+00FE (without the signs U+00D7 and U+00F7), each upper
  case letter at the position of its lower case letter.
\<close>

definition upper_letters :: string where
  "upper_letters =
     ''ABCDEFGHIJKLMNOPQRSTUVWXYZ'' @
     [CHR 0xC0, CHR 0xC1, CHR 0xC2, CHR 0xC3, CHR 0xC4, CHR 0xC5, CHR 0xC6,
      CHR 0xC7, CHR 0xC8, CHR 0xC9, CHR 0xCA, CHR 0xCB, CHR 0xCC, CHR 0xCD,
      CHR 0xCE, CHR 0xCF, CHR 0xD0, CHR 0xD1, CHR 0xD2, CHR 0xD3, CHR 0xD4,
      CHR 0xD5, CHR 0xD6, CHR 0xD8, CHR 0xD9, CHR 0xDA, CHR 0xDB, CHR 0xDC,
      CHR 0xDD, CHR 0xDE]"

definition lower_letters :: string where
  "lower_letters =
     ''abcdefghijklmnopqrstuvwxyz'' @
     [CHR 0xE0, CHR 0xE1, CHR 0xE2, CHR 0xE3, CHR 0xE4, CHR 0xE5, CHR 0xE6,
      CHR 0xE7, CHR 0xE8, CHR 0xE9, CHR 0xEA, CHR 0xEB, CHR 0xEC, CHR 0xED,
      CHR 0xEE, CHR 0xEF, CHR 0xF0, CHR 0xF1, CHR 0xF2, CHR 0xF3, CHR 0xF4,
      CHR 0xF5, CHR 0xF6, CHR 0xF8, CHR 0xF9, CHR 0xFA, CHR 0xFB, CHR 0xFC,
      CHR 0xFD, CHR 0xFE]"

definition lower_char :: "char \<Rightarrow> char" where
  "lower_char c = (case map_of (zip upper_letters lower_letters) c of Some d \<Rightarrow> d | None \<Rightarrow> c)"

text \<open>
  The title case of a character: the upper case letter of a lower case letter, \<^verbatim>\<open>Ss\<close> for
  the sharp s (U+00DF), the character itself otherwise.
\<close>

definition title_char :: "char \<Rightarrow> string" where
  "title_char c =
     (if c = CHR 0xDF then ''Ss''
      else [case map_of (zip lower_letters upper_letters) c of Some d \<Rightarrow> d | None \<Rightarrow> c])"

text \<open>The cased characters: the letters above and five lower case characters more.\<close>

definition is_cased :: "char \<Rightarrow> bool" where
  "is_cased c \<longleftrightarrow>
     c \<in> set upper_letters \<or> c \<in> set lower_letters \<or>
     c \<in> set [CHR 0xAA, CHR 0xB5, CHR 0xBA, CHR 0xDF, CHR 0xFF]"

definition lower :: "string \<Rightarrow> string" where
  "lower s = map lower_char s"

text \<open>
  \<^verbatim>\<open>str.title()\<close>: a character is put in title case when the character before it is not
  cased, and in lower case otherwise.
\<close>

fun title_from :: "bool \<Rightarrow> string \<Rightarrow> string" where
  "title_from previous_is_cased [] = []"
| "title_from previous_is_cased (c # cs) =
     (if previous_is_cased then [lower_char c] else title_char c) @ title_from (is_cased c) cs"

definition title :: "string \<Rightarrow> string" where
  "title s = title_from False s"

subsection \<open>\<^verbatim>\<open>datetime.strptime\<close> and \<^verbatim>\<open>strftime\<close> for the two formats used\<close>

text \<open>
  \<^verbatim>\<open>strptime\<close> turns the format into a regular expression, one group per directive,
  matches it at the start of the string (alternatives are tried in the order written),
  and raises \<^verbatim>\<open>ValueError\<close> when there is no match or when the match does not reach the
  end of the string. \<open>re_match r s\<close> lists the ways \<open>r\<close> matches a prefix of \<open>s\<close>,
  as pairs of the matched text and the rest, in the order a backtracking matcher finds
  them.
\<close>

datatype re = Cls string | Seq re re | Alt re re

fun re_match :: "re \<Rightarrow> string \<Rightarrow> (string \<times> string) list" where
  "re_match (Cls cs) s =
     (case s of [] \<Rightarrow> [] | c # r \<Rightarrow> if c \<in> set cs then [([c], r)] else [])"
| "re_match (Seq a b) s =
     concat (map (\<lambda>(u, r). map (\<lambda>(v, r'). (u @ v, r')) (re_match b r)) (re_match a s))"
| "re_match (Alt a b) s = re_match a s @ re_match b s"

text \<open>The groups of \<^verbatim>\<open>%Y\<close>, \<^verbatim>\<open>%m\<close>, \<^verbatim>\<open>%d\<close>, \<^verbatim>\<open>%H\<close> and \<^verbatim>\<open>%M\<close>.\<close>

definition re_digit :: re where
  "re_digit = Cls digits"

definition re_Y :: re where
  "re_Y = Seq re_digit (Seq re_digit (Seq re_digit re_digit))"

definition re_m :: re where
  "re_m = Alt (Seq (Cls ''1'') (Cls ''012''))
            (Alt (Seq (Cls ''0'') (Cls ''123456789'')) (Cls ''123456789''))"

definition re_d :: re where
  "re_d = Alt (Seq (Cls ''3'') (Cls ''01''))
            (Alt (Seq (Cls ''12'') re_digit)
              (Alt (Seq (Cls ''0'') (Cls ''123456789''))
                (Alt (Cls ''123456789'') (Seq (Cls '' '') (Cls ''123456789'')))))"

definition re_H :: re where
  "re_H = Alt (Seq (Cls ''2'') (Cls ''0123'')) (Alt (Seq (Cls ''01'') re_digit) re_digit)"

definition re_M :: re where
  "re_M = Alt (Seq (Cls ''012345'') re_digit) re_digit"

text \<open>\<^verbatim>\<open>int(s)\<close> on the text of a group: digits, after a possible leading blank.\<close>

definition int_of_group :: "string \<Rightarrow> nat" where
  "int_of_group s = foldl (\<lambda>n c. 10 * n + (of_char c - 48)) 0 (strip s)"

definition match_date :: "string \<Rightarrow> (string \<times> string \<times> string \<times> string) list" where
  "match_date s =
     [(y, m, d, r5).
        (y, r1) \<leftarrow> re_match re_Y s, (_, r2) \<leftarrow> re_match (Cls ''-'') r1,
        (m, r3) \<leftarrow> re_match re_m r2, (_, r4) \<leftarrow> re_match (Cls ''-'') r3,
        (d, r5) \<leftarrow> re_match re_d r4]"

definition match_time :: "string \<Rightarrow> (string \<times> string \<times> string) list" where
  "match_time s =
     [(H, M, r3).
        (H, r1) \<leftarrow> re_match re_H s, (_, r2) \<leftarrow> re_match (Cls '':'') r1,
        (M, r3) \<leftarrow> re_match re_M r2]"

definition is_leap :: "nat \<Rightarrow> bool" where
  "is_leap y \<longleftrightarrow> y mod 4 = 0 \<and> (y mod 100 \<noteq> 0 \<or> y mod 400 = 0)"

definition days_in_month :: "nat \<Rightarrow> nat \<Rightarrow> nat" where
  "days_in_month y m =
     (if m = 2 \<and> is_leap y then 29 else [0, 31, 28, 31, 30, 31, 30, 31, 31, 30, 31, 30, 31] ! m)"

text \<open>
  \<^verbatim>\<open>datetime.strptime(s, "%Y-%m-%d")\<close>: the year, month and day, or \<^verbatim>\<open>ValueError\<close>.
  The date itself is checked when the date object is built: the year is at least 1 and
  the day exists in the month.
\<close>

definition strptime_date :: "string \<Rightarrow> exn + nat \<times> nat \<times> nat" where
  "strptime_date s =
     (case match_date s of
        [] \<Rightarrow> Inl ValueError
      | (y, m, d, r) # _ \<Rightarrow>
          if r \<noteq> [] then Inl ValueError
          else let year = int_of_group y; month = int_of_group m; day = int_of_group d
               in if year < 1 \<or> days_in_month year month < day then Inl ValueError
                  else Inr (year, month, day))"

text \<open>\<^verbatim>\<open>datetime.strptime(s, "%H:%M")\<close>: the hour and the minute, or \<^verbatim>\<open>ValueError\<close>.\<close>

definition strptime_time :: "string \<Rightarrow> exn + nat \<times> nat" where
  "strptime_time s =
     (case match_time s of
        [] \<Rightarrow> Inl ValueError
      | (H, M, r) # _ \<Rightarrow>
          if r \<noteq> [] then Inl ValueError else Inr (int_of_group H, int_of_group M))"

definition days_before_year :: "nat \<Rightarrow> nat" where
  "days_before_year y = (y - 1) * 365 + (y - 1) div 4 - (y - 1) div 100 + (y - 1) div 400"

definition days_before_month :: "nat \<Rightarrow> nat \<Rightarrow> nat" where
  "days_before_month y m = sum_list (map (days_in_month y) [1..<m])"

definition weekday :: "nat \<times> nat \<times> nat \<Rightarrow> nat" where
  "weekday date_obj =
     (case date_obj of (y, m, d) \<Rightarrow> (days_before_year y + days_before_month y m + d + 6) mod 7)"

definition day_names :: "string list" where
  "day_names =
     [''Monday'', ''Tuesday'', ''Wednesday'', ''Thursday'', ''Friday'', ''Saturday'', ''Sunday'']"

definition month_names :: "string list" where
  "month_names =
     ['''', ''January'', ''February'', ''March'', ''April'', ''May'', ''June'', ''July'',
      ''August'', ''September'', ''October'', ''November'', ''December'']"

text \<open>
  \<^verbatim>\<open>strftime("%A, %B %-d, %Y")\<close> in the C locale, as glibc prints it (the year without
  padding).
\<close>

definition strftime_date :: "nat \<times> nat \<times> nat \<Rightarrow> string" where
  "strftime_date date_obj =
     (case date_obj of (y, m, d) \<Rightarrow>
        day_names ! weekday date_obj @ '', '' @ month_names ! m @ '' '' @ decimal d
          @ '', '' @ decimal y)"

text \<open>\<^verbatim>\<open>strftime("%-I %p").lower()\<close>: the hour on the 12-hour clock, then am or pm.\<close>

definition strftime_time :: "nat \<times> nat \<Rightarrow> string" where
  "strftime_time time_obj =
     (case time_obj of (h, m) \<Rightarrow>
        lower (decimal (if h mod 12 = 0 then 12 else h mod 12) @ '' ''
                 @ (if h < 12 then ''AM'' else ''PM'')))"

subsection \<open>The message composer: \<^verbatim>\<open>format_email\<close>\<close>

text \<open>
  A restaurant as \<^verbatim>\<open>ddb_get_many\<close> builds it: the three keys are always there, and a
  value is \<^verbatim>\<open>None\<close> when the stored item has no string under that attribute.
\<close>

record restaurant =
  BusinessID :: "string option"
  Name :: "string option"
  Address :: "string option"

text \<open>
  The dict \<^verbatim>\<open>enriched\<close> that \<^verbatim>\<open>process_one_message\<close> hands to \<^verbatim>\<open>format_email\<close>. Its five
  keys are always there; \<^verbatim>\<open>partySize\<close>, \<^verbatim>\<open>date\<close> and \<^verbatim>\<open>time\<close> hold whatever the payload
  had under \<^verbatim>\<open>num_people\<close>, \<^verbatim>\<open>dining_date\<close> and \<^verbatim>\<open>dining_time\<close> (\<open>JNull\<close> for a missing
  key).
\<close>

record enriched =
  cuisine :: string
  partySize :: json
  date :: json
  time :: json
  results :: "restaurant list"

text \<open>Lines 103 to 108: what the date adds to \<^verbatim>\<open>when_parts\<close>.\<close>

definition date_parts :: "json \<Rightarrow> exn + string list" where
  "date_parts d =
     (if truthy d then
        (case d of
           JStr s \<Rightarrow>
             (case strptime_date s of
                Inr date_obj \<Rightarrow> Inr [strftime_date date_obj]
              | Inl e \<Rightarrow> if e = ValueError then Inr [s] else Inl e)
         | _ \<Rightarrow> Inl TypeError)
      else Inr [])"

text \<open>Lines 110 to 117: what the time adds to \<^verbatim>\<open>when_parts\<close>.\<close>

definition time_parts :: "json \<Rightarrow> exn + string list" where
  "time_parts t =
     (if truthy t then
        (case t of
           JStr s \<Rightarrow>
             (case strptime_time s of
                Inr time_obj \<Rightarrow> Inr [''at '' @ strftime_time time_obj]
              | Inl e \<Rightarrow> if e = ValueError then Inr [''at '' @ s] else Inl e)
         | _ \<Rightarrow> Inl TypeError)
      else Inr [])"

text \<open>Lines 96 to 122: the intro line.\<close>

definition intro_line :: "enriched \<Rightarrow> exn + string" where
  "intro_line body =
     (let intro = ''Hello! Here are my '' @ title (cuisine body) @ '' restaurant suggestions'';
          intro = (if truthy (partySize body)
                   then intro @ '' for '' @ py_str (partySize body) @ '' people'' else intro)
      in case date_parts (date body) of
           Inl e \<Rightarrow> Inl e
         | Inr dp \<Rightarrow>
             (case time_parts (time body) of
                Inl e \<Rightarrow> Inl e
              | Inr tp \<Rightarrow>
                  (let when_parts = dp @ tp;
                       intro = (if when_parts \<noteq> []
                                then intro @ '', for '' @ join '' '' when_parts else intro)
                   in Inr (intro @ '':''))))"

text \<open>
  Lines 126 to 130: the loop over \<^verbatim>\<open>enumerate(results, start=1)\<close>, which appends one
  piece to \<^verbatim>\<open>lines\<close> for each restaurant. \<open>fstr_opt v\<close> is what the f-string field
  \<^verbatim>\<open>{v}\<close> inserts for a value that is a string or \<^verbatim>\<open>None\<close>.
\<close>

definition fstr_opt :: "string option \<Rightarrow> string" where
  "fstr_opt v = (case v of Some s \<Rightarrow> s | None \<Rightarrow> ''None'')"

definition piece :: "nat \<Rightarrow> restaurant \<Rightarrow> string" where
  "piece i r =
     (let p = decimal i @ ''. '' @ fstr_opt (Name r)
      in case Address r of
           Some a \<Rightarrow> if a \<noteq> [] then p @ '', located at '' @ a else p
         | None \<Rightarrow> p)"

fun add_lines :: "nat \<Rightarrow> restaurant list \<Rightarrow> string list \<Rightarrow> string list" where
  "add_lines i [] lines = lines"
| "add_lines i (r # rs) lines = add_lines (i + 1) rs (lines @ [piece i r])"

definition newline :: string where
  "newline = [CHR 0x0A]"

definition format_email :: "enriched \<Rightarrow> exn + string" where
  "format_email body =
     (case intro_line body of
        Inl e \<Rightarrow> Inl e
      | Inr intro \<Rightarrow>
          (let lines = add_lines 1 (results body) [intro];
               lines = lines @ [newline @ ''Enjoy your meal!'']
           in Inr (join newline lines)))"

subsection \<open>Events, service answers and the environment\<close>

text \<open>The messages the worker logs, one constructor for each logging call.\<close>

datatype logmsg =
    BadSQSBody string
  | MissingCuisineOrEmail json
  | OpenSearchFailed exn
  | NoHits string
  | DynamoDBFailed exn
  | NoDynamoDBMatches "json list"
  | SentSuggestions string
  | FailedToSendEmail string
  | ProcessingFailed exn

text \<open>
  The calls the worker makes: the signed HTTP request to the search index (method, path,
  body), the batched read of the store (table, the \<^verbatim>\<open>BusinessID\<close> of each key), the mail
  (recipient, subject, text), the two queue calls, and logging.
\<close>

datatype event =
    HttpRequest string string json
  | BatchGetItem string "json list"
  | SesSendEmail string string string
  | SqsReceiveMessage nat nat nat
  | SqsDeleteMessage string
  | Log logmsg

record message =
  Body :: "string option"
  ReceiptHandle :: string

record receive_response =
  Messages :: "message list option"

text \<open>A stored item maps attribute names to typed values; \<open>AttrS\<close> is \<^verbatim>\<open>{"S": s}\<close>.\<close>

datatype attribute_value = AttrS string | AttrN string | AttrNULL

type_synonym ddb_item = "string \<Rightarrow> attribute_value option"

text \<open>
  The answer to a batched read: the items found, by table, and the keys the store did not
  get to (\<^verbatim>\<open>UnprocessedKeys\<close>), which \<^verbatim>\<open>ddb_get_many\<close> does not read.
\<close>

record batch_get_response =
  Responses :: "(string \<Rightarrow> ddb_item list option) option"
  UnprocessedKeys :: "json list"

record handler_result =
  ok :: bool
  processed :: nat

text \<open>
  The configuration read at start-up (\<open>NUM_RESULTS\<close> is whatever integer the variable
  holds), \<^verbatim>\<open>json.loads\<close> (\<open>None\<close> when it raises), and the answers of the services. Each
  service sees the events before the call and the request, and answers or raises.

  A function that calls a service takes the list \<open>h\<close> of the events so far and returns,
  with its value or exception, the list of the events so far when it is done.
\<close>

record env =
  NUM_RESULTS :: int
  OS_INDEX :: string
  DDB_TABLE :: string
  json_loads :: "string \<Rightarrow> json option"
  http_request :: "event list \<Rightarrow> string \<Rightarrow> string \<Rightarrow> json \<Rightarrow> exn + nat \<times> string"
  batch_get_item :: "event list \<Rightarrow> string \<Rightarrow> json list \<Rightarrow> exn + batch_get_response"
  ses_send_email :: "event list \<Rightarrow> string \<Rightarrow> string \<Rightarrow> string \<Rightarrow> exn + string"
  receive_message :: "event list \<Rightarrow> exn + receive_response"
  delete_message :: "event list \<Rightarrow> string \<Rightarrow> exn option"

definition bind_res :: "exn + 'a \<Rightarrow> ('a \<Rightarrow> exn + 'b) \<Rightarrow> exn + 'b" where
  "bind_res x f = (case x of Inl e \<Rightarrow> Inl e | Inr v \<Rightarrow> f v)"

subsection \<open>The candidate sampler: \<^verbatim>\<open>os_signed_request\<close> and \<^verbatim>\<open>os_random_ids_by_cuisine\<close>\<close>

text \<open>
  The only call passes no \<^verbatim>\<open>params\<close> and a dict as \<^verbatim>\<open>body\<close>. Signing and transport are
  the service's part; a status other than 200 and 201 raises \<^verbatim>\<open>RuntimeError\<close>.
\<close>

definition os_signed_request ::
  "env \<Rightarrow> event list \<Rightarrow> string \<Rightarrow> string \<Rightarrow> json \<Rightarrow> (exn + json) \<times> event list" where
  "os_signed_request env h method path body =
     (bind_res (http_request env h method path body)
        (\<lambda>(status, data).
           if status \<noteq> 200 \<and> status \<noteq> 201 then Inl (RuntimeError status)
           else (case json_loads env data of None \<Rightarrow> Inl JSONDecodeError | Some res \<Rightarrow> Inr res)),
      h @ [HttpRequest method path body])"

definition search_query :: "string \<Rightarrow> int \<Rightarrow> json" where
  "search_query cuis sz =
     JObj [(''size'', JInt sz),
           (''query'', JObj [(''function_score'',
              JObj [(''query'', JObj [(''term'', JObj [(''cuisine'', JStr cuis)])]),
                    (''random_score'', JObj [])])])]"

text \<open>\<^verbatim>\<open>for h in hits\<close>: what iterating over a value yields, or \<^verbatim>\<open>TypeError\<close>.\<close>

fun py_iter :: "json \<Rightarrow> exn + json list" where
  "py_iter (JArr xs) = Inr xs"
| "py_iter (JObj kvs) = Inr (map (\<lambda>kv. JStr (fst kv)) kvs)"
| "py_iter (JStr s) = Inr (map (\<lambda>c. JStr [c]) s)"
| "py_iter _ = Inl TypeError"

text \<open>Lines 59 to 63, with the list \<^verbatim>\<open>ids\<close> built so far.\<close>

fun collect_ids :: "json list \<Rightarrow> json list \<Rightarrow> exn + json list" where
  "collect_ids [] ids = Inr ids"
| "collect_ids (h # hits) ids =
     bind_res (py_get h ''_source'' JNull) (\<lambda>s.
     bind_res (py_get (py_or s (JObj [])) ''restaurant_id'' JNull) (\<lambda>a.
     bind_res (if truthy a then Inr a else py_get h ''_id'' JNull) (\<lambda>rid.
     collect_ids hits (if truthy rid then ids @ [rid] else ids))))"

definition os_random_ids_by_cuisine ::
  "env \<Rightarrow> event list \<Rightarrow> string \<Rightarrow> int \<Rightarrow> (exn + json list) \<times> event list" where
  "os_random_ids_by_cuisine env h cuis sz =
     (case os_signed_request env h ''POST'' (''/'' @ OS_INDEX env @ ''/_search'')
             (search_query cuis sz) of
        (r, h1) \<Rightarrow>
          (bind_res r (\<lambda>res.
           bind_res (py_get res ''hits'' (JObj [])) (\<lambda>x.
           bind_res (py_get x ''hits'' (JArr [])) (\<lambda>hs.
           bind_res (py_iter hs) (\<lambda>hits. collect_ids hits [])))), h1))"

subsection \<open>The detail fetcher: \<^verbatim>\<open>ddb_get_many\<close>\<close>

text \<open>The helper \<^verbatim>\<open>g\<close>; the only type asked for is \<^verbatim>\<open>"S"\<close>.\<close>

definition g :: "ddb_item \<Rightarrow> string \<Rightarrow> string \<Rightarrow> string option" where
  "g d k t =
     (case d k of
        Some (AttrS s) \<Rightarrow> if t = ''S'' then Some s else None
      | Some (AttrN n) \<Rightarrow> if t = ''N'' then Some n else None
      | _ \<Rightarrow> None)"

text \<open>Lines 83 to 90, with the dict \<^verbatim>\<open>out\<close> built so far.\<close>

fun collect_items ::
  "ddb_item list \<Rightarrow> (string option \<Rightarrow> restaurant option) \<Rightarrow> string option \<Rightarrow> restaurant option" where
  "collect_items [] out = out"
| "collect_items (item # items) out =
     (let bid = g item ''BusinessID'' ''S'';
          name = g item ''Name'' ''S'';
          addr = g item ''Address'' ''S''
      in collect_items items
           (out(bid \<mapsto> \<lparr>BusinessID = bid, Name = name, Address = addr\<rparr>)))"

definition response_items :: "batch_get_response \<Rightarrow> string \<Rightarrow> ddb_item list" where
  "response_items res table =
     (case Responses res of
        None \<Rightarrow> []
      | Some tables \<Rightarrow> (case tables table of None \<Rightarrow> [] | Some items \<Rightarrow> items))"

definition ddb_get_many ::
  "env \<Rightarrow> event list \<Rightarrow> json list
     \<Rightarrow> (exn + (string option \<Rightarrow> restaurant option)) \<times> event list" where
  "ddb_get_many env h business_ids =
     (if business_ids = [] then (Inr Map.empty, h)
      else (bind_res (batch_get_item env h (DDB_TABLE env) business_ids)
              (\<lambda>res. Inr (collect_items (response_items res (DDB_TABLE env)) Map.empty)),
            h @ [BatchGetItem (DDB_TABLE env) business_ids]))"

subsection \<open>The delivery client: \<^verbatim>\<open>send_email\<close>\<close>

definition send_email ::
  "env \<Rightarrow> event list \<Rightarrow> string \<Rightarrow> string \<Rightarrow> string \<Rightarrow> (exn + bool) \<times> event list" where
  "send_email env h to_addr subject text =
     (case ses_send_email env h to_addr subject text of
        Inr message_id \<Rightarrow> Inr True
      | Inl e \<Rightarrow> if e = ClientError then Inr False else Inl e,
      h @ [SesSendEmail to_addr subject text])"

subsection \<open>The orchestrator: \<^verbatim>\<open>process_one_message\<close> and \<^verbatim>\<open>lambda_handler\<close>\<close>

text \<open>\<^verbatim>\<open>(payload.get(k) or "").strip()\<close>: only a string has the method \<^verbatim>\<open>strip\<close>.\<close>

definition get_stripped :: "json \<Rightarrow> string \<Rightarrow> exn + string" where
  "get_stripped payload k =
     bind_res (py_get payload k JNull)
       (\<lambda>v. case py_or v (JStr []) of JStr s \<Rightarrow> Inr (strip s) | _ \<Rightarrow> Inl AttributeError)"

text \<open>
  \<^verbatim>\<open>list(dict.fromkeys(ids))\<close>: the keys in the order of their first insertion. A list or a
  dict cannot be a key (\<^verbatim>\<open>TypeError\<close>); \<^verbatim>\<open>True\<close> and \<^verbatim>\<open>1\<close> are the same key, which
  \<open>py_key\<close> accounts for.
\<close>

fun hashable :: "json \<Rightarrow> bool" where
  "hashable (JArr xs) = False"
| "hashable (JObj kvs) = False"
| "hashable _ = True"

fun py_key :: "json \<Rightarrow> json" where
  "py_key (JBool b) = JInt (if b then 1 else 0)"
| "py_key v = v"

fun fromkeys_loop :: "json list \<Rightarrow> json list \<Rightarrow> exn + json list" where
  "fromkeys_loop [] keys = Inr keys"
| "fromkeys_loop (x # xs) keys =
     (if \<not> hashable x then Inl TypeError
      else fromkeys_loop xs (if py_key x \<in> py_key ` set keys then keys else keys @ [x]))"

definition dict_fromkeys :: "json list \<Rightarrow> exn + json list" where
  "dict_fromkeys ids = fromkeys_loop ids []"

text \<open>The slice \<^verbatim>\<open>xs[:n]\<close>; a negative \<open>n\<close> counts from the end.\<close>

definition slice_to :: "int \<Rightarrow> 'a list \<Rightarrow> 'a list" where
  "slice_to n xs = (if n < 0 then take (length xs - nat (- n)) xs else take (nat n) xs)"

text \<open>
  \<^verbatim>\<open>details[i] for i in ids if i in details\<close>: the keys of \<^verbatim>\<open>details\<close> are strings or
  \<^verbatim>\<open>None\<close>, so no other value is among them.
\<close>

definition lookup_details :: "(string option \<Rightarrow> restaurant option) \<Rightarrow> json \<Rightarrow> restaurant option" where
  "lookup_details details i =
     (case i of JStr s \<Rightarrow> details (Some s) | JNull \<Rightarrow> details None | _ \<Rightarrow> None)"

definition subject_line :: "string \<Rightarrow> string" where
  "subject_line cuis = title cuis @ '' restaurant suggestions''"

text \<open>Lines 191 to 208: the third step, the mail.\<close>

definition stage_email ::
  "env \<Rightarrow> event list \<Rightarrow> json \<Rightarrow> string \<Rightarrow> string \<Rightarrow> restaurant list
     \<Rightarrow> (exn + bool) \<times> event list" where
  "stage_email env h payload cuis email rs =
     (case bind_res (py_get payload ''num_people'' JNull) (\<lambda>n.
           bind_res (py_get payload ''dining_date'' JNull) (\<lambda>d.
           bind_res (py_get payload ''dining_time'' JNull) (\<lambda>t.
           format_email
             \<lparr>cuisine = cuis, partySize = n, date = d, time = t, results = rs\<rparr>))) of
        Inl e \<Rightarrow> (Inl e, h)
      | Inr text \<Rightarrow>
          (case send_email env h email (subject_line cuis) text of
             (Inl e, h3) \<Rightarrow> (Inl e, h3)
           | (Inr sent, h3) \<Rightarrow>
               if sent then (Inr True, h3 @ [Log (SentSuggestions email)])
               else (Inr False, h3 @ [Log (FailedToSendEmail email)])))"

text \<open>Lines 179 to 189: the second step, the details from the store.\<close>

definition stage_details ::
  "env \<Rightarrow> event list \<Rightarrow> json \<Rightarrow> string \<Rightarrow> string \<Rightarrow> json list
     \<Rightarrow> (exn + bool) \<times> event list" where
  "stage_details env h payload cuis email ids =
     (case ddb_get_many env h ids of
        (Inl e, h2) \<Rightarrow> (Inr False, h2 @ [Log (DynamoDBFailed e)])
      | (Inr details, h2) \<Rightarrow>
          (let rs = List.map_filter (lookup_details details) ids
           in if rs = [] then (Inr True, h2 @ [Log (NoDynamoDBMatches ids)])
              else stage_email env h2 payload cuis email rs))"

text \<open>Line 154: \<^verbatim>\<open>msg.get("Body") or "{}"\<close>.\<close>

definition body_raw :: "message \<Rightarrow> string" where
  "body_raw msg = (case Body msg of Some b \<Rightarrow> if b \<noteq> [] then b else ''{}'' | None \<Rightarrow> ''{}'')"

text \<open>
  Lines 153 to 177, and then the two steps above: \<open>process_one_message env msg h\<close> is
  the value returned (or the exception that escapes) and the events so far at that
  point.
\<close>

definition process_one_message ::
  "env \<Rightarrow> message \<Rightarrow> event list \<Rightarrow> (exn + bool) \<times> event list" where
  "process_one_message env msg h =
     (case json_loads env (body_raw msg) of
        None \<Rightarrow> (Inr False, h @ [Log (BadSQSBody (body_raw msg))])
      | Some payload \<Rightarrow>
          (case bind_res (get_stripped payload ''cuisine'') (\<lambda>c.
                bind_res (get_stripped payload ''email'') (\<lambda>email. Inr (lower c, email))) of
             Inl e \<Rightarrow> (Inl e, h)
           | Inr (cuis, email) \<Rightarrow>
               if cuis = [] \<or> email = []
               then (Inr True, h @ [Log (MissingCuisineOrEmail payload)])
               else
                 (case os_random_ids_by_cuisine env h cuis (NUM_RESULTS env * 2) of
                    (Inl e, h1) \<Rightarrow> (Inr False, h1 @ [Log (OpenSearchFailed e)])
                  | (Inr ids0, h1) \<Rightarrow>
                      (case dict_fromkeys ids0 of
                         Inl e \<Rightarrow> (Inl e, h1)
                       | Inr keys \<Rightarrow>
                           (let ids = slice_to (NUM_RESULTS env) keys
                            in if ids = [] then (Inr True, h1 @ [Log (NoHits cuis)])
                               else stage_details env h1 payload cuis email ids)))))"

text \<open>
  The loop of \<^verbatim>\<open>lambda_handler\<close> over the messages left, with the count \<^verbatim>\<open>processed\<close>. An
  exception of \<^verbatim>\<open>process_one_message\<close> is logged and the message counts as not done; an
  exception of \<^verbatim>\<open>delete_message\<close> is outside the \<^verbatim>\<open>try\<close> and ends the handler.
\<close>

fun handle_messages ::
  "env \<Rightarrow> message list \<Rightarrow> nat \<Rightarrow> event list \<Rightarrow> (exn + nat) \<times> event list" where
  "handle_messages env [] n h = (Inr n, h)"
| "handle_messages env (m # ms) n h =
     (case process_one_message env m h of
        (r, h1) \<Rightarrow>
          (let h2 = (case r of Inl e \<Rightarrow> h1 @ [Log (ProcessingFailed e)] | Inr b \<Rightarrow> h1);
               ok = (case r of Inl e \<Rightarrow> False | Inr b \<Rightarrow> b)
           in if ok then
                (case delete_message env h2 (ReceiptHandle m) of
                   Some e \<Rightarrow> (Inl e, h2 @ [SqsDeleteMessage (ReceiptHandle m)])
                 | None \<Rightarrow> handle_messages env ms (n + 1) (h2 @ [SqsDeleteMessage (ReceiptHandle m)]))
              else handle_messages env ms n h2))"

text \<open>Line 216: \<^verbatim>\<open>resp.get("Messages", [])\<close>.\<close>

definition messages_of :: "receive_response \<Rightarrow> message list" where
  "messages_of resp = (case Messages resp of None \<Rightarrow> [] | Some ms \<Rightarrow> ms)"

text \<open>\<open>lambda_handler env h\<close>: the dict returned and the events so far at the return.\<close>

definition lambda_handler :: "env \<Rightarrow> event list \<Rightarrow> (exn + handler_result) \<times> event list" where
  "lambda_handler env h =
     (let h0 = h @ [SqsReceiveMessage 10 30 3]
      in case receive_message env h of
           Inl e \<Rightarrow> (Inl e, h0)
         | Inr resp \<Rightarrow>
             (let msgs = messages_of resp
              in if msgs = [] then (Inr \<lparr>ok = True, processed = 0\<rparr>, h0)
                 else (case handle_messages env msgs 0 h0 of
                         (Inl e, h') \<Rightarrow> (Inl e, h')
                       | (Inr n, h') \<Rightarrow> (Inr \<lparr>ok = True, processed = n\<rparr>, h'))))"

subsection \<open>Concrete inputs\<close>

text \<open>Two restaurants, one of them without an address, and one without a name.\<close>

definition trattoria :: restaurant where
  "trattoria = \<lparr>BusinessID = Some ''id1'', Name = Some ''Trattoria'', Address = Some ''1 Main St''\<rparr>"

definition luigis :: restaurant where
  "luigis = \<lparr>BusinessID = Some ''id3'', Name = Some ''Luigi's'', Address = None\<rparr>"

definition nameless :: restaurant where
  "nameless = \<lparr>BusinessID = Some ''id2'', Name = None, Address = None\<rparr>"

text \<open>A request whose date and time do not parse, for a party of \<^verbatim>\<open>"0"\<close>.\<close>

definition request_unparsed :: enriched where
  "request_unparsed =
     \<lparr>cuisine = ''italian'', partySize = JStr ''0'', date = JStr ''2025-13-40'',
      time = JStr ''7pm'', results = [trattoria, luigis]\<rparr>"

text \<open>A request whose time is the empty string.\<close>

definition request_empty_time :: enriched where
  "request_empty_time =
     \<lparr>cuisine = ''italian'', partySize = JNull, date = JNull, time = JStr '''',
      results = [luigis]\<rparr>"

text \<open>A request whose only result has no name.\<close>

definition request_nameless :: enriched where
  "request_nameless =
     \<lparr>cuisine = ''italian'', partySize = JNull, date = JNull, time = JNull,
      results = [nameless]\<rparr>"

text \<open>The texts composed for these three requests.\<close>

definition text_unparsed :: string where
  "text_unparsed = ''Hello! Here are my Italian restaurant suggestions for 0 people, for 2025-13-40 at 7pm:\<newline>1. Trattoria, located at 1 Main St\<newline>2. Luigi's\<newline>\<newline>Enjoy your meal!''"

definition text_empty_time :: string where
  "text_empty_time = ''Hello! Here are my Italian restaurant suggestions:\<newline>1. Luigi's\<newline>\<newline>Enjoy your meal!''"

definition text_nameless :: string where
  "text_nameless = ''Hello! Here are my Italian restaurant suggestions:\<newline>1. None\<newline>\<newline>Enjoy your meal!''"

text \<open>A stored item with a key and nothing else.\<close>

definition item_without_name :: ddb_item where
  "item_without_name = [''BusinessID'' \<mapsto> AttrS ''id2'']"

text \<open>
  A message asking for Italian restaurants, with its decoded payload, and the answer of
  the search index to the query, with its decoded form: four hits, the third a repeat of
  the first.
\<close>

definition italian_body :: string where
  \<open>italian_body = ''{"cuisine": " Italian ", "email": "a@b.com", "num_people": "2", "dining_date": "2025-10-09", "dining_time": "19:00"}''\<close>

definition italian_payload :: json where
  "italian_payload =
     JObj [(''cuisine'', JStr '' Italian ''), (''email'', JStr ''a@b.com''),
           (''num_people'', JStr ''2''), (''dining_date'', JStr ''2025-10-09''),
           (''dining_time'', JStr ''19:00'')]"

definition hits_data :: string where
  \<open>hits_data = ''{"hits": {"hits": [{"_id": "id1", "_source": {"restaurant_id": "id1"}}, {"_id": "id2"}, {"_id": "id1"}, {"_id": "id3"}]}}''\<close>

definition hits_response :: json where
  "hits_response =
     JObj [(''hits'', JObj [(''hits'', JArr
       [JObj [(''_id'', JStr ''id1''), (''_source'', JObj [(''restaurant_id'', JStr ''id1'')])],
        JObj [(''_id'', JStr ''id2'')],
        JObj [(''_id'', JStr ''id1'')],
        JObj [(''_id'', JStr ''id3'')]])])]"

text \<open>A message without an e-mail address, and a message that is not JSON.\<close>

definition no_email_body :: string where
  \<open>no_email_body = ''{"cuisine": "thai", "email": "  "}''\<close>

definition no_email_payload :: json where
  "no_email_payload = JObj [(''cuisine'', JStr ''thai''), (''email'', JStr ''  '')]"

definition italian_msg :: message where
  "italian_msg = \<lparr>Body = Some italian_body, ReceiptHandle = ''rh1''\<rparr>"

definition no_email_msg :: message where
  "no_email_msg = \<lparr>Body = Some no_email_body, ReceiptHandle = ''rh2''\<rparr>"

definition not_json_msg :: message where
  "not_json_msg = \<lparr>Body = Some ''not json'', ReceiptHandle = ''rh3''\<rparr>"

text \<open>The store, with the restaurants \<^verbatim>\<open>id1\<close> and \<^verbatim>\<open>id3\<close>.\<close>

definition item1 :: ddb_item where
  "item1 = [''BusinessID'' \<mapsto> AttrS ''id1'', ''Name'' \<mapsto> AttrS ''Trattoria'',
            ''Address'' \<mapsto> AttrS ''1 Main St'']"

definition item3 :: ddb_item where
  "item3 = [''BusinessID'' \<mapsto> AttrS ''id3'', ''Name'' \<mapsto> AttrS ''Luigi's'']"

definition store :: "string \<Rightarrow> ddb_item option" where
  "store = [''id1'' \<mapsto> item1, ''id3'' \<mapsto> item3]"

text \<open>
  An environment in which every service answers: \<^verbatim>\<open>json.loads\<close> decodes the three bodies
  above (the only other string it is given below is \<^verbatim>\<open>not json\<close>), the index answers with
  \<open>hits_data\<close>, the store returns the items it has for the keys asked, the mail is
  accepted, and the queue hands out the three messages.
\<close>

definition env_ok :: env where
  "env_ok =
     \<lparr>NUM_RESULTS = 3, OS_INDEX = ''restaurants'', DDB_TABLE = ''yelp-restaurants'',
      json_loads = map_of [(italian_body, italian_payload), (hits_data, hits_response),
                           (no_email_body, no_email_payload)],
      http_request = (\<lambda>h method path body. Inr (200, hits_data)),
      batch_get_item = (\<lambda>h table keys.
        Inr \<lparr>Responses = Some [table \<mapsto>
               List.map_filter (\<lambda>k. case k of JStr s \<Rightarrow> store s | _ \<Rightarrow> None) keys],
             UnprocessedKeys = []\<rparr>),
      ses_send_email = (\<lambda>h to_addr subject body. Inr ''message-1''),
      receive_message = (\<lambda>h. Inr \<lparr>Messages = Some [italian_msg, no_email_msg, not_json_msg]\<rparr>),
      delete_message = (\<lambda>h receipt. None)\<rparr>"

text \<open>The same, but the mail service rejects the mail.\<close>

definition env_rejecting :: env where
  "env_rejecting = env_ok\<lparr>ses_send_email := (\<lambda>h to_addr subject body. Inl ClientError)\<rparr>"

text \<open>The same as \<open>env_ok\<close>, but the queue hands out only the message that is not JSON.\<close>

definition env_not_json :: env where
  "env_not_json = env_ok\<lparr>receive_message := (\<lambda>h. Inr \<lparr>Messages = Some [not_json_msg]\<rparr>)\<rparr>"

text \<open>The text of the mail for \<open>italian_msg\<close> in \<open>env_ok\<close>, and the query sent to the index.\<close>

definition italian_text :: string where
  "italian_text = ''Hello! Here are my Italian restaurant suggestions for 2 people, for Thursday, October 9, 2025 at 7 pm:\<newline>1. Trattoria, located at 1 Main St\<newline>2. Luigi's\<newline>\<newline>Enjoy your meal!''"

definition italian_query :: event where
  "italian_query = HttpRequest ''POST'' ''/restaurants/_search'' (search_query ''italian'' 6)"

subsection \<open>Notions of the specification\<close>

text \<open>
  Deduplication that keeps first occurrences: the identifier at position \<open>i\<close> stays
  exactly when no identifier before it is the same key.
\<close>

definition first_occurrences :: "json list \<Rightarrow> json list" where
  "first_occurrences xs =
     map (nth xs) (filter (\<lambda>i. py_key (xs ! i) \<notin> py_key ` set (take i xs)) [0..<length xs])"

text \<open>
  The terminal outcomes of the specification. Each way \<^verbatim>\<open>lambda_handler\<close> can be done with
  a message ends with one log message, which tells the exit taken. \<open>spec_outcome\<close> is the
  outcome that the state machine of the specification gives to the exit: a payload that
  is not JSON is there a malformed payload. \<open>code_outcome\<close> is the outcome by the code's
  own comments, which call that exit a transient failure.
\<close>

datatype outcome = Delivered | DiscardMalformed | DiscardNoResults | TransientFailure

fun spec_outcome :: "logmsg \<Rightarrow> outcome" where
  "spec_outcome (BadSQSBody b) = DiscardMalformed"
| "spec_outcome (MissingCuisineOrEmail p) = DiscardMalformed"
| "spec_outcome (OpenSearchFailed e) = TransientFailure"
| "spec_outcome (NoHits c) = DiscardNoResults"
| "spec_outcome (DynamoDBFailed e) = TransientFailure"
| "spec_outcome (NoDynamoDBMatches ids) = DiscardNoResults"
| "spec_outcome (SentSuggestions a) = Delivered"
| "spec_outcome (FailedToSendEmail a) = TransientFailure"
| "spec_outcome (ProcessingFailed e) = TransientFailure"

fun code_outcome :: "logmsg \<Rightarrow> outcome" where
  "code_outcome (BadSQSBody b) = TransientFailure"
| "code_outcome x = spec_outcome x"

text \<open>The policy: which outcomes have the message acknowledged.\<close>

fun acknowledged :: "outcome \<Rightarrow> bool" where
  "acknowledged TransientFailure = False"
| "acknowledged _ = True"

text \<open>The events that are an exit or the deletion of a message.\<close>

fun exit_or_delete :: "event \<Rightarrow> bool" where
  "exit_or_delete (Log x) = True"
| "exit_or_delete (SqsDeleteMessage r) = True"
| "exit_or_delete _ = False"

text \<open>
  What a run over the messages leaves of such events, when the message \<open>i\<close> takes the
  exit \<open>i\<close> of the list and is deleted exactly when the outcome of its exit is
  acknowledged. The outcome of an exit is given by \<open>oc\<close>.
\<close>

definition exits_and_deletes ::
  "(logmsg \<Rightarrow> outcome) \<Rightarrow> message list \<Rightarrow> logmsg list \<Rightarrow> event list" where
  "exits_and_deletes oc msgs exits =
     concat (map (\<lambda>(m, x).
                    Log x # (if acknowledged (oc x) then [SqsDeleteMessage (ReceiptHandle m)]
                             else []))
               (zip msgs exits))"

text \<open>
  The events of one call of \<^verbatim>\<open>process_one_message\<close> that returns \<open>r\<close> hold no exit when
  \<open>r\<close> is an exception, and one exit, acknowledged exactly when \<open>r\<close> is \<^verbatim>\<open>True\<close>, otherwise.
\<close>

definition one_exit :: "exn + bool \<Rightarrow> event list \<Rightarrow> bool" where
  "one_exit r evs \<longleftrightarrow>
     (case r of
        Inl e \<Rightarrow> filter exit_or_delete evs = []
      | Inr b \<Rightarrow> (\<exists>x. filter exit_or_delete evs = [Log x] \<and> acknowledged (code_outcome x) = b))"

text \<open>The same as \<open>env_ok\<close>, but the index, the store or the mail service cannot be reached.\<close>

definition env_index_down :: env where
  "env_index_down = env_ok\<lparr>http_request := (\<lambda>h method path body. Inl (ServiceError ''timeout''))\<rparr>"

definition env_store_down :: env where
  "env_store_down = env_ok\<lparr>batch_get_item := (\<lambda>h table keys. Inl (ServiceError ''timeout''))\<rparr>"

definition env_unreachable :: env where
  "env_unreachable =
     env_ok\<lparr>ses_send_email := (\<lambda>h to_addr subject body. Inl (ServiceError ''connection''))\<rparr>"

text \<open>
  The same as \<open>env_ok\<close>, but the store answers a batch in part: it returns the first item
  found and reports the other keys as unprocessed.
\<close>

definition env_partial :: env where
  "env_partial =
     env_ok\<lparr>batch_get_item := (\<lambda>h table keys.
       Inr \<lparr>Responses = Some [table \<mapsto>
              take 1 (List.map_filter (\<lambda>k. case k of JStr s \<Rightarrow> store s | _ \<Rightarrow> None) keys)],
            UnprocessedKeys = drop 1 keys\<rparr>)\<rparr>"

text \<open>The same as \<open>env_ok\<close>, but configured with a negative number of results.\<close>

definition env_negative :: env where
  "env_negative = env_ok\<lparr>NUM_RESULTS := - 1\<rparr>"

subsection \<open>The steps of a message, as conditions\<close>

text \<open>
  The request of the candidates: the one signed request \<^verbatim>\<open>process_one_message\<close> makes, for
  twice \<open>NUM_RESULTS\<close> hits of the cuisine.
\<close>

definition search_request :: "env \<Rightarrow> string \<Rightarrow> event" where
  "search_request env c =
     HttpRequest ''POST'' (''/'' @ OS_INDEX env @ ''/_search'')
       (search_query c (NUM_RESULTS env * 2))"

text \<open>
  The body of the message decodes to \<open>payload\<close>, whose cuisine and address trim to \<open>c0\<close>
  and \<open>email\<close>, neither of them empty.
\<close>

definition valid_request :: "env \<Rightarrow> message \<Rightarrow> json \<Rightarrow> string \<Rightarrow> string \<Rightarrow> bool" where
  "valid_request env msg payload c0 email \<longleftrightarrow>
     json_loads env (body_raw msg) = Some payload \<and>
     get_stripped payload ''cuisine'' = Inr c0 \<and>
     get_stripped payload ''email'' = Inr email \<and> c0 \<noteq> [] \<and> email \<noteq> []"

text \<open>
  After the events \<open>h\<close> the index answers the request for the cuisine \<open>c\<close> with hits
  whose identifiers are \<open>ids0\<close>, all of them possible dict keys, and \<open>ids\<close> is what
  line 174 makes of them.
\<close>

definition sampled :: "env \<Rightarrow> event list \<Rightarrow> string \<Rightarrow> json list \<Rightarrow> json list \<Rightarrow> bool" where
  "sampled env h c ids0 ids \<longleftrightarrow>
     fst (os_random_ids_by_cuisine env h c (NUM_RESULTS env * 2)) = Inr ids0 \<and>
     (case dict_fromkeys ids0 of
        Inl e \<Rightarrow> False
      | Inr keys \<Rightarrow> ids = slice_to (NUM_RESULTS env) keys)"

text \<open>
  After the events \<open>h\<close> the store answers the read of \<open>ids\<close> with \<open>res\<close>, and \<open>rs\<close>
  are the restaurants line 186 finds for \<open>ids\<close> in it.
\<close>

definition fetched ::
  "env \<Rightarrow> event list \<Rightarrow> json list \<Rightarrow> batch_get_response \<Rightarrow> restaurant list \<Rightarrow> bool" where
  "fetched env h ids res rs \<longleftrightarrow>
     batch_get_item env h (DDB_TABLE env) ids = Inr res \<and>
     rs = List.map_filter
            (lookup_details (collect_items (response_items res (DDB_TABLE env)) Map.empty)) ids"

text \<open>\<^verbatim>\<open>format_email\<close> composes \<open>body\<close> for the payload, the cuisine \<open>c\<close> and the restaurants.\<close>

definition composed :: "json \<Rightarrow> string \<Rightarrow> restaurant list \<Rightarrow> string \<Rightarrow> bool" where
  "composed payload c rs body \<longleftrightarrow>
     (case (py_get payload ''num_people'' JNull, py_get payload ''dining_date'' JNull,
            py_get payload ''dining_time'' JNull) of
        (Inr n, Inr d, Inr t) \<Rightarrow>
          format_email \<lparr>cuisine = c, partySize = n, date = d, time = t, results = rs\<rparr> = Inr body
      | _ \<Rightarrow> False)"

section \<open>Properties of the composer\<close>

lemma bind_res_simps [simp]:
  "bind_res (Inl e) f = Inl e" "bind_res (Inr v) f = f v"
  by (simp_all add: bind_res_def)

text \<open>The loop appends to \<^verbatim>\<open>lines\<close> the piece of each restaurant, numbered from \<open>i\<close>.\<close>

lemma add_lines_eq:
  "add_lines i rs lines = lines @ map (\<lambda>k. piece (i + k) (rs ! k)) [0..<length rs]"
proof (induction rs arbitrary: i lines)
  case Nil
  then show ?case by simp
next
  case (Cons r rs)
  have "map (\<lambda>k. piece (i + k) ((r # rs) ! k)) [0..<length (r # rs)]
          = piece i r # map (\<lambda>k. piece (i + 1 + k) (rs ! k)) [0..<length rs]"
    by (simp add: map_upt_Suc del: upt_Suc)
  with Cons.IH [of "i + 1" "lines @ [piece i r]"] show ?case by simp
qed

lemma piece_eq:
  "piece i r = decimal i @ ''. '' @ fstr_opt (Name r)
     @ (case Address r of Some a \<Rightarrow> if a = [] then [] else '', located at '' @ a | None \<Rightarrow> [])"
  by (simp add: piece_def Let_def split: option.splits)

text \<open>The two calls of \<^verbatim>\<open>strptime\<close> raise nothing but \<^verbatim>\<open>ValueError\<close>.\<close>

lemma strptime_date_raises: "strptime_date s = Inl e \<Longrightarrow> e = ValueError"
  by (auto simp: strptime_date_def Let_def split: list.splits prod.splits if_splits)

lemma strptime_time_raises: "strptime_time s = Inl e \<Longrightarrow> e = ValueError"
  by (auto simp: strptime_time_def Let_def split: list.splits prod.splits if_splits)

lemma date_parts_str:
  "date_parts (JStr s) =
     Inr (if s = [] then []
          else [case strptime_date s of Inr date_obj \<Rightarrow> strftime_date date_obj | Inl e \<Rightarrow> s])"
  by (auto simp: date_parts_def split: sum.splits dest: strptime_date_raises)

lemma time_parts_str:
  "time_parts (JStr s) =
     Inr (if s = [] then []
          else [''at '' @ (case strptime_time s of
                             Inr time_obj \<Rightarrow> strftime_time time_obj | Inl e \<Rightarrow> s)])"
  by (auto simp: time_parts_def split: sum.splits dest: strptime_time_raises)

lemma date_parts_falsy: "\<not> truthy d \<Longrightarrow> date_parts d = Inr []"
  by (simp add: date_parts_def)

lemma time_parts_falsy: "\<not> truthy t \<Longrightarrow> time_parts t = Inr []"
  by (simp add: time_parts_def)

lemma date_parts_nonempty: "date_parts d = Inr dp \<Longrightarrow> dp \<noteq> [] \<longleftrightarrow> truthy d"
  by (auto simp: date_parts_def split: if_splits json.splits sum.splits)

lemma time_parts_nonempty: "time_parts t = Inr tp \<Longrightarrow> tp \<noteq> [] \<longleftrightarrow> truthy t"
  by (auto simp: time_parts_def split: if_splits json.splits sum.splits)

lemma intro_line_Inr:
  "intro_line body = Inr intro \<longleftrightarrow>
     (\<exists>dp tp. date_parts (date body) = Inr dp \<and> time_parts (time body) = Inr tp \<and>
        intro = ''Hello! Here are my '' @ title (cuisine body) @ '' restaurant suggestions''
          @ (if truthy (partySize body) then '' for '' @ py_str (partySize body) @ '' people''
             else [])
          @ (if dp @ tp \<noteq> [] then '', for '' @ join '' '' (dp @ tp) else []) @ '':'')"
  by (auto simp: intro_line_def Let_def split: sum.splits)

lemma format_email_Inr:
  "format_email body = Inr text \<longleftrightarrow>
     (\<exists>intro. intro_line body = Inr intro \<and>
        text = join newline
                 (intro # map (\<lambda>k. piece (1 + k) (results body ! k)) [0..<length (results body)]
                    @ [newline @ ''Enjoy your meal!'']))"
  by (auto simp: format_email_def Let_def add_lines_eq split: sum.splits)

lemma join_Cons: "join sep (x # xs) = x @ (if xs = [] then [] else sep @ join sep xs)"
  by (cases xs) simp_all

lemma sublist_join: "x \<in> set xs \<Longrightarrow> sublist x (join sep xs)"
proof (induction sep xs rule: join.induct)
  case (1 sep)
  then show ?case by simp
next
  case (2 sep y)
  then show ?case by simp
next
  case (3 sep y z zs)
  show ?case
  proof (cases "x = y")
    case True
    then show ?thesis by simp
  next
    case False
    with 3 have "sublist x (join sep (z # zs))" by simp
    then obtain p q where "join sep (z # zs) = p @ x @ q" by (auto simp: sublist_def)
    then have "join sep (y # z # zs) = (y @ sep @ p) @ x @ q" by simp
    then show ?thesis unfolding sublist_def by blast
  qed
qed

lemma intro_line_shape:
  assumes "intro_line body = Inr intro"
  shows "\<exists>w. (w = [] \<or> prefix '', for '' w) \<and>
     intro = ''Hello! Here are my '' @ title (cuisine body) @ '' restaurant suggestions''
          @ (if truthy (partySize body) then '' for '' @ py_str (partySize body) @ '' people''
             else []) @ w @ '':''"
proof -
  from assms obtain dp tp where
    "intro = ''Hello! Here are my '' @ title (cuisine body) @ '' restaurant suggestions''
          @ (if truthy (partySize body) then '' for '' @ py_str (partySize body) @ '' people''
             else [])
          @ (if dp @ tp \<noteq> [] then '', for '' @ join '' '' (dp @ tp) else []) @ '':''"
    unfolding intro_line_Inr by blast
  moreover have "(if dp @ tp \<noteq> [] then '', for '' @ join '' '' (dp @ tp) else []) = []
     \<or> prefix '', for '' (if dp @ tp \<noteq> [] then '', for '' @ join '' '' (dp @ tp) else [])"
    by (simp only: prefix_def split: if_splits) blast
  ultimately show ?thesis by blast
qed

text \<open>Whatever the date and the time add to the intro line is part of the text.\<close>

lemma sublist_trans2: "sublist a b \<Longrightarrow> sublist b c \<Longrightarrow> sublist a c"
proof -
  assume "sublist a b" "sublist b c"
  then obtain p q p' q' where "b = p @ a @ q" "c = p' @ b @ q'"
    unfolding sublist_def by blast
  then have "c = (p' @ p) @ a @ (q @ q')" by simp
  then show ?thesis unfolding sublist_def by blast
qed

lemma sublist_format_email:
  assumes "format_email body = Inr text" and "intro_line body = Inr intro"
  shows "sublist intro text"
proof -
  from assms obtain ls where "text = join newline (intro # ls)"
    unfolding format_email_Inr by auto
  then show ?thesis by (simp add: sublist_join)
qed

lemma sublist_intro_line:
  assumes "intro_line body = Inr intro"
    and "date_parts (date body) = Inr dp" and "time_parts (time body) = Inr tp"
    and "x \<in> set (dp @ tp)"
  shows "sublist x intro"
proof -
  from assms(4) have ne: "dp @ tp \<noteq> []" by auto
  from assms(1-3) obtain p where
    "intro = p @ (if dp @ tp \<noteq> [] then '', for '' @ join '' '' (dp @ tp) else []) @ '':''"
    unfolding intro_line_Inr by (metis Inr_inject append_assoc)
  with ne have "intro = (p @ '', for '') @ join '' '' (dp @ tp) @ '':''"
    by simp
  then have "sublist (join '' '' (dp @ tp)) intro"
    unfolding sublist_def by blast
  with sublist_join [OF assms(4), of "'' ''"] show ?thesis
    by (rule sublist_trans2)
qed

text \<open>Evaluations on the concrete inputs.\<close>

lemma format_email_unparsed: "format_email request_unparsed = Inr text_unparsed"
  by code_simp

lemma title_italian: "title ''italian'' = ''Italian''"
  by code_simp

lemma strptime_unparsed:
  "strptime_date ''2025-13-40'' = Inl ValueError" "strptime_time ''7pm'' = Inl ValueError"
  by code_simp+

section \<open>The claims about the composer\<close>

text \<open>
  Claim C10. The text composed by \<^verbatim>\<open>format_email\<close> has the clause \<^verbatim>\<open>" for <N> people"\<close>
  right after \<^verbatim>\<open>"... restaurant suggestions"\<close> exactly when the party size is truthy:
  with it the clause follows, without it the next text is \<^verbatim>\<open>", for "\<close> or \<^verbatim>\<open>":"\<close>. Nothing
  is validated: a string is printed as it is, and it is truthy when it is not empty, so
  \<^verbatim>\<open>"0"\<close> gives \<^verbatim>\<open>"for 0 people"\<close>; the number 0, the empty string and null are not truthy.
\<close>

theorem party_size_suffix:
  "(format_email body = Inr text \<longrightarrow>
      (\<exists>rest. (prefix '', for '' rest \<or> prefix '':'' rest) \<and>
         text = ''Hello! Here are my '' @ title (cuisine body) @ '' restaurant suggestions''
           @ (if truthy (partySize body) then '' for '' @ py_str (partySize body) @ '' people''
              else [])
           @ rest))
   \<and> (\<forall>s. py_str (JStr s) = s \<and> (truthy (JStr s) \<longleftrightarrow> s \<noteq> []))
   \<and> truthy (JStr ''0'') \<and> \<not> truthy (JInt 0) \<and> \<not> truthy (JStr '''') \<and> \<not> truthy JNull"
proof -
  have "\<exists>rest. (prefix '', for '' rest \<or> prefix '':'' rest) \<and>
         text = ''Hello! Here are my '' @ title (cuisine body) @ '' restaurant suggestions''
           @ (if truthy (partySize body) then '' for '' @ py_str (partySize body) @ '' people''
              else [])
           @ rest" if "format_email body = Inr text"
  proof -
    from that obtain intro where i: "intro_line body = Inr intro"
      and t: "text = join newline
                 (intro # map (\<lambda>k. piece (1 + k) (results body ! k)) [0..<length (results body)]
                    @ [newline @ ''Enjoy your meal!''])"
      unfolding format_email_Inr by blast
    from intro_line_shape [OF i] obtain w where w: "w = [] \<or> prefix '', for '' w"
      and intro: "intro = ''Hello! Here are my '' @ title (cuisine body) @ '' restaurant suggestions''
          @ (if truthy (partySize body) then '' for '' @ py_str (partySize body) @ '' people''
             else []) @ w @ '':''"
      by blast
    from t obtain tl where tl: "text = intro @ tl" unfolding join_Cons by blast
    from w have "prefix '', for '' (w @ '':'' @ tl) \<or> prefix '':'' (w @ '':'' @ tl)"
      by (auto simp only: prefix_def append_assoc append_Nil)
    moreover have "text = ''Hello! Here are my '' @ title (cuisine body) @ '' restaurant suggestions''
           @ (if truthy (partySize body) then '' for '' @ py_str (partySize body) @ '' people''
              else []) @ (w @ '':'' @ tl)"
      unfolding tl intro by (simp only: append_assoc)
    ultimately show ?thesis by blast
  qed
  then show ?thesis by (simp add: py_str_def)
qed

theorem party_size_suffix_witness:
  "format_email request_unparsed = Inr text_unparsed
   \<and> (\<exists>rest. (prefix '', for '' rest \<or> prefix '':'' rest) \<and>
         text_unparsed = ''Hello! Here are my Italian restaurant suggestions for 0 people'' @ rest)"
proof -
  have c: "cuisine request_unparsed = ''italian''" "partySize request_unparsed = JStr ''0''"
    by (simp_all add: request_unparsed_def)
  from party_size_suffix [of request_unparsed text_unparsed] format_email_unparsed
  obtain rest where "prefix '', for '' rest \<or> prefix '':'' rest"
    and "text_unparsed = ''Hello! Here are my '' @ title (cuisine request_unparsed)
           @ '' restaurant suggestions''
           @ (if truthy (partySize request_unparsed)
              then '' for '' @ py_str (partySize request_unparsed) @ '' people'' else [])
           @ rest"
    by blast
  then show ?thesis
    using format_email_unparsed by (auto simp add: c title_italian py_str_def)
qed

text \<open>
  Claim C5. The text composed by \<^verbatim>\<open>format_email\<close> is the intro line, then one line for each
  restaurant in the order given, then the closing, joined by newlines. The line of the
  restaurant at position \<open>k\<close> (from 0) is the number \<open>k + 1\<close>, a dot, the name, and
  \<^verbatim>\<open>", located at <address>"\<close> exactly when the restaurant has a non-empty address.
\<close>

theorem listing_one_line_per_restaurant:
  assumes "format_email body = Inr text"
  shows "\<exists>intro ls.
           intro_line body = Inr intro \<and>
           text = join newline (intro # ls @ [newline @ ''Enjoy your meal!'']) \<and>
           length ls = length (results body) \<and>
           (\<forall>k<length ls.
              ls ! k = decimal (k + 1) @ ''. '' @ fstr_opt (Name (results body ! k))
                @ (case Address (results body ! k) of
                     Some a \<Rightarrow> if a = [] then [] else '', located at '' @ a
                   | None \<Rightarrow> []))"
proof -
  let ?ls = "map (\<lambda>k. piece (1 + k) (results body ! k)) [0..<length (results body)]"
  from assms obtain intro where "intro_line body = Inr intro"
    and "text = join newline (intro # ?ls @ [newline @ ''Enjoy your meal!''])"
    unfolding format_email_Inr by blast
  moreover have "length ?ls = length (results body)" by simp
  moreover have "\<forall>k<length ?ls.
              ?ls ! k = decimal (k + 1) @ ''. '' @ fstr_opt (Name (results body ! k))
                @ (case Address (results body ! k) of
                     Some a \<Rightarrow> if a = [] then [] else '', located at '' @ a
                   | None \<Rightarrow> [])"
    by (simp add: piece_eq add.commute)
  ultimately show ?thesis by blast
qed

theorem listing_one_line_per_restaurant_witness:
  "\<exists>intro ls.
     format_email request_unparsed = Inr text_unparsed
     \<and> text_unparsed = join newline (intro # ls @ [newline @ ''Enjoy your meal!''])
     \<and> ls = [''1. Trattoria, located at 1 Main St'', ''2. Luigi's'']"
proof -
  from listing_one_line_per_restaurant [OF format_email_unparsed] obtain intro ls where
    t: "text_unparsed = join newline (intro # ls @ [newline @ ''Enjoy your meal!''])"
    and l: "length ls = length (results request_unparsed)"
    and k: "\<forall>k<length ls.
              ls ! k = decimal (k + 1) @ ''. '' @ fstr_opt (Name (results request_unparsed ! k))
                @ (case Address (results request_unparsed ! k) of
                     Some a \<Rightarrow> if a = [] then [] else '', located at '' @ a
                   | None \<Rightarrow> [])"
    by blast
  have r: "results request_unparsed = [trattoria, luigis]" by (simp add: request_unparsed_def)
  from l have l2: "length ls = 2" by (simp add: r)
  then obtain a b where ab: "ls = [a, b]"
    by (metis (no_types) length_0_conv length_Suc_conv numeral_2_eq_2)
  have d: "decimal (Suc 0) = ''1''" "decimal (Suc (Suc 0)) = ''2''" by code_simp+
  from k [rule_format, of 0] have "a = ''1. Trattoria, located at 1 Main St''"
    by (simp add: ab r trattoria_def fstr_opt_def d)
  moreover from k [rule_format, of 1] have "b = ''2. Luigi's''"
    by (simp add: ab r luigis_def fstr_opt_def d)
  ultimately show ?thesis using format_email_unparsed t ab by blast
qed

text \<open>
  Claim C6, as stated, fails: the empty string is a time string that does not parse, and
  with it the text has no \<^verbatim>\<open>"at "\<close>, because an empty time is skipped like a missing
  one.
\<close>

theorem empty_time_counterexample:
  "strptime_time '''' = Inl ValueError
   \<and> format_email request_empty_time = Inr text_empty_time
   \<and> \<not> sublist (''at '' @ '''') text_empty_time"
  by code_simp

text \<open>
  Claim C6, amended. When the date and the time are each null or a string,
  \<^verbatim>\<open>format_email\<close> returns a text. A date string that does not parse is part of the text
  as it is, and for a non-empty time string \<open>s\<close> that does not parse the text has
  \<^verbatim>\<open>"at "\<close> followed by \<open>s\<close>.
\<close>

theorem format_email_total:
  assumes "date body = JNull \<or> (\<exists>s. date body = JStr s)"
    and "time body = JNull \<or> (\<exists>s. time body = JStr s)"
  shows "\<exists>text. format_email body = Inr text
           \<and> (\<forall>s. date body = JStr s \<and> (\<forall>d. strptime_date s \<noteq> Inr d) \<longrightarrow> sublist s text)
           \<and> (\<forall>s. time body = JStr s \<and> s \<noteq> [] \<and> (\<forall>t. strptime_time s \<noteq> Inr t)
                  \<longrightarrow> sublist (''at '' @ s) text)"
proof -
  from assms(1) obtain dp where dp: "date_parts (date body) = Inr dp"
    by (auto simp: date_parts_falsy date_parts_str)
  from assms(2) obtain tp where tp: "time_parts (time body) = Inr tp"
    by (auto simp: time_parts_falsy time_parts_str)
  from dp tp obtain intro where intro: "intro_line body = Inr intro"
    unfolding intro_line_Inr by blast
  then obtain tx where tx: "format_email body = Inr tx"
    unfolding format_email_Inr by blast
  have "sublist s tx" if "date body = JStr s" "\<forall>d. strptime_date s \<noteq> Inr d" for s
  proof (cases "s = []")
    case True
    then show ?thesis by simp
  next
    case False
    from that(2) have "(case strptime_date s of Inr date_obj \<Rightarrow> strftime_date date_obj | Inl e \<Rightarrow> s) = s"
      by (cases "strptime_date s") simp_all
    with dp that(1) False have "s \<in> set (dp @ tp)"
      by (auto simp: date_parts_str split: sum.splits)
    from sublist_intro_line [OF intro dp tp this] sublist_format_email [OF tx intro]
    show ?thesis by (rule sublist_trans2)
  qed
  moreover have "sublist (''at '' @ s) tx"
    if "time body = JStr s" "s \<noteq> []" "\<forall>t. strptime_time s \<noteq> Inr t" for s
  proof -
    from tp that have "''at '' @ s \<in> set (dp @ tp)"
      by (auto simp: time_parts_str split: sum.splits)
    from sublist_intro_line [OF intro dp tp this] sublist_format_email [OF tx intro]
    show ?thesis by (rule sublist_trans2)
  qed
  ultimately show ?thesis using tx by blast
qed

theorem format_email_total_witness:
  "format_email request_unparsed = Inr text_unparsed
   \<and> sublist ''2025-13-40'' text_unparsed \<and> sublist ''at 7pm'' text_unparsed"
proof -
  have d: "date request_unparsed = JStr ''2025-13-40''" and t: "time request_unparsed = JStr ''7pm''"
    by (simp_all add: request_unparsed_def)
  from format_email_total [of request_unparsed] d t obtain tx where
    tx: "format_email request_unparsed = Inr tx"
    and "\<forall>s. date request_unparsed = JStr s \<and> (\<forall>d. strptime_date s \<noteq> Inr d) \<longrightarrow> sublist s tx"
    and "\<forall>s. time request_unparsed = JStr s \<and> s \<noteq> [] \<and> (\<forall>t. strptime_time s \<noteq> Inr t)
                  \<longrightarrow> sublist (''at '' @ s) tx"
    by blast
  with d t strptime_unparsed have "sublist ''2025-13-40'' tx" "sublist (''at '' @ ''7pm'') tx"
    by simp_all
  moreover from tx format_email_unparsed have "tx = text_unparsed" by simp
  ultimately show ?thesis using format_email_unparsed by simp
qed

text \<open>
  Claim C7 fails for the name. A stored item without a \<^verbatim>\<open>Name\<close> gives a restaurant whose
  name is \<^verbatim>\<open>None\<close>, and \<^verbatim>\<open>format_email\<close> prints its line as \<^verbatim>\<open>"1. None"\<close>. (A missing
  address is left out, as claim C5 shows.)
\<close>

theorem missing_name_printed:
  "g item_without_name ''Name'' ''S'' = None
   \<and> collect_items [item_without_name] Map.empty (Some ''id2'') = Some nameless
   \<and> format_email request_nameless = Inr text_nameless
   \<and> sublist ''1. None'' text_nameless"
  by code_simp

section \<open>Properties of the orchestrator\<close>

text \<open>The events each step adds, case by case.\<close>

lemma send_email_run:
  "send_email env h a s t =
     (case ses_send_email env h a s t of
        Inr message_id \<Rightarrow> Inr True
      | Inl e \<Rightarrow> if e = ClientError then Inr False else Inl e,
      h @ [SesSendEmail a s t])"
  by (simp add: send_email_def)

lemma stage_email_run:
  assumes "stage_email env h payload c email rs = (r, h')"
  shows "(\<exists>e. r = Inl e \<and> h' = h) \<or>
    (\<exists>n d t body. py_get payload ''num_people'' JNull = Inr n \<and>
       py_get payload ''dining_date'' JNull = Inr d \<and>
       py_get payload ''dining_time'' JNull = Inr t \<and>
       format_email \<lparr>cuisine = c, partySize = n, date = d, time = t, results = rs\<rparr> = Inr body \<and>
       ((\<exists>e. r = Inl e \<and> h' = h @ [SesSendEmail email (subject_line c) body]) \<or>
        (r = Inr True \<and>
           h' = h @ [SesSendEmail email (subject_line c) body, Log (SentSuggestions email)]) \<or>
        (r = Inr False \<and>
           h' = h @ [SesSendEmail email (subject_line c) body, Log (FailedToSendEmail email)])))"
  using assms
  by (auto simp: stage_email_def send_email_run bind_res_def split: sum.splits if_splits)

lemma ddb_get_many_run:
  "ddb_get_many env h ids = (r, h') \<Longrightarrow>
     (ids = [] \<and> r = Inr Map.empty \<and> h' = h) \<or>
     (ids \<noteq> [] \<and> h' = h @ [BatchGetItem (DDB_TABLE env) ids] \<and>
        r = bind_res (batch_get_item env h (DDB_TABLE env) ids)
              (\<lambda>res. Inr (collect_items (response_items res (DDB_TABLE env)) Map.empty)))"
  by (auto simp: ddb_get_many_def split: if_splits)

lemma stage_details_run:
  assumes "stage_details env h payload c email ids = (r, h')" and "ids \<noteq> []"
  shows "\<exists>h2. h2 = h @ [BatchGetItem (DDB_TABLE env) ids] \<and>
    ((\<exists>e. r = Inr False \<and> h' = h2 @ [Log (DynamoDBFailed e)]) \<or>
     (r = Inr True \<and> h' = h2 @ [Log (NoDynamoDBMatches ids)]) \<or>
     (\<exists>details rs. fst (ddb_get_many env h ids) = Inr details \<and>
        rs = List.map_filter (lookup_details details) ids \<and> rs \<noteq> [] \<and>
        stage_email env h2 payload c email rs = (r, h')))"
proof -
  obtain r2 h2 where d: "ddb_get_many env h ids = (r2, h2)" by (cases "ddb_get_many env h ids")
  with assms(2) have h2: "h2 = h @ [BatchGetItem (DDB_TABLE env) ids]"
    by (auto dest: ddb_get_many_run)
  show ?thesis
  proof (cases r2)
    case (Inl e)
    with assms(1) d h2 show ?thesis by (auto simp: stage_details_def)
  next
    case (Inr details)
    with assms(1) d h2 show ?thesis
      by (auto simp: stage_details_def Let_def split: if_splits)
  qed
qed

lemma os_signed_request_run:
  "snd (os_signed_request env h method path body) = h @ [HttpRequest method path body]"
  by (simp add: os_signed_request_def)

lemma os_random_ids_by_cuisine_run:
  "snd (os_random_ids_by_cuisine env h c sz)
     = h @ [HttpRequest ''POST'' (''/'' @ OS_INDEX env @ ''/_search'') (search_query c sz)]"
  by (simp add: os_random_ids_by_cuisine_def os_signed_request_def split: prod.splits)


lemma one_exit_Cons: "\<not> exit_or_delete e \<Longrightarrow> one_exit r (e # evs) = one_exit r evs"
  by (cases r) (simp_all add: one_exit_def)

lemma stage_email_view:
  assumes "stage_email env h payload c email rs = (r, h')"
  shows "\<exists>evs. h' = h @ evs \<and> one_exit r evs"
  using stage_email_run [OF assms] by (auto simp: one_exit_def)

lemma stage_details_view:
  assumes "stage_details env h payload c email ids = (r, h')" and "ids \<noteq> []"
  shows "\<exists>evs. h' = h @ evs \<and> one_exit r evs"
proof -
  let ?b = "BatchGetItem (DDB_TABLE env) ids"
  from stage_details_run [OF assms] consider
    (failed) e where "r = Inr False" "h' = h @ [?b, Log (DynamoDBFailed e)]"
  | (nomatch) "r = Inr True" "h' = h @ [?b, Log (NoDynamoDBMatches ids)]"
  | (email) rs where "stage_email env (h @ [?b]) payload c email rs = (r, h')"
    by auto
  then show ?thesis
  proof cases
    case failed
    then show ?thesis by (simp add: one_exit_def)
  next
    case nomatch
    then show ?thesis by (simp add: one_exit_def)
  next
    case email
    from stage_email_view [OF this] obtain evs where "h' = (h @ [?b]) @ evs" "one_exit r evs"
      by blast
    then have "h' = h @ (?b # evs)" "one_exit r (?b # evs)"
      by (simp_all add: one_exit_Cons)
    then show ?thesis by blast
  qed
qed

lemma process_one_message_view:
  assumes "process_one_message env msg h = (r, h')"
  shows "\<exists>evs. h' = h @ evs \<and> one_exit r evs"
proof (cases "json_loads env (body_raw msg)")
  case None
  with assms show ?thesis by (auto simp: process_one_message_def one_exit_def)
next
  case (Some payload)
  show ?thesis
  proof (cases "bind_res (get_stripped payload ''cuisine'') (\<lambda>c.
                bind_res (get_stripped payload ''email'') (\<lambda>email. Inr (lower c, email)))")
    case (Inl e)
    with assms Some show ?thesis by (auto simp: process_one_message_def one_exit_def)
  next
    case (Inr ce)
    obtain c email where ce: "ce = (c, email)" by (cases ce)
    show ?thesis
    proof (cases "c = [] \<or> email = []")
      case True
      with assms Some Inr ce show ?thesis by (auto simp: process_one_message_def one_exit_def)
    next
      case False
      let ?q = "HttpRequest ''POST'' (''/'' @ OS_INDEX env @ ''/_search'')
                  (search_query c (NUM_RESULTS env * 2))"
      obtain r1 h1 where os: "os_random_ids_by_cuisine env h c (NUM_RESULTS env * 2) = (r1, h1)"
        by (cases "os_random_ids_by_cuisine env h c (NUM_RESULTS env * 2)")
      with os_random_ids_by_cuisine_run [of env h c "NUM_RESULTS env * 2"]
      have h1: "h1 = h @ [?q]" by simp
      show ?thesis
      proof (cases r1)
        case (Inl e)
        with assms Some Inr ce False os h1 show ?thesis
          by (auto simp: process_one_message_def one_exit_def)
      next
        case ids0: (Inr ids0)
        show ?thesis
        proof (cases "dict_fromkeys ids0")
          case (Inl e)
          with assms Some Inr ce False os h1 ids0 show ?thesis
            by (auto simp: process_one_message_def one_exit_def)
        next
          case keys: (Inr keys)
          show ?thesis
          proof (cases "slice_to (NUM_RESULTS env) keys = []")
            case True
            with assms Some Inr ce False os h1 ids0 keys show ?thesis
              by (auto simp: process_one_message_def one_exit_def)
          next
            case ne: False
            with assms Some Inr ce False os h1 ids0 keys
            have "stage_details env (h @ [?q]) payload c email (slice_to (NUM_RESULTS env) keys)
                    = (r, h')"
              by (auto simp: process_one_message_def Let_def)
            from stage_details_view [OF this ne] obtain evs where
              "h' = (h @ [?q]) @ evs" "one_exit r evs" by blast
            then have "h' = h @ (?q # evs)" "one_exit r (?q # evs)"
              by (simp_all add: one_exit_Cons)
            then show ?thesis by blast
          qed
        qed
      qed
    qed
  qed
qed


lemma exits_and_deletes_Cons:
  "exits_and_deletes oc (m # ms) (x # xs) =
     Log x # (if acknowledged (oc x) then [SqsDeleteMessage (ReceiptHandle m)] else [])
       @ exits_and_deletes oc ms xs"
  by (simp add: exits_and_deletes_def)

lemma handle_messages_run:
  assumes del: "\<forall>h r. delete_message env h r = None"
  shows "\<exists>exits evs. length exits = length msgs \<and>
           handle_messages env msgs n h =
             (Inr (n + length (filter (\<lambda>x. acknowledged (code_outcome x)) exits)), h @ evs) \<and>
           filter exit_or_delete evs = exits_and_deletes code_outcome msgs exits"
proof (induction msgs arbitrary: n h)
  case Nil
  show ?case by (simp add: exits_and_deletes_def)
next
  case (Cons m ms)
  obtain r h1 where p: "process_one_message env m h = (r, h1)"
    by (cases "process_one_message env m h")
  from process_one_message_view [OF p] obtain evs1 where
    h1: "h1 = h @ evs1" and one: "one_exit r evs1" by blast
  let ?d = "SqsDeleteMessage (ReceiptHandle m)"
  show ?case
  proof (cases r)
    case (Inl e)
    let ?x = "ProcessingFailed e"
    from Cons.IH [of n "h1 @ [Log ?x]"] obtain exits evs where
      l: "length exits = length ms"
      and run: "handle_messages env ms n (h1 @ [Log ?x]) =
             (Inr (n + length (filter (\<lambda>x. acknowledged (code_outcome x)) exits)), (h1 @ [Log ?x]) @ evs)"
      and v: "filter exit_or_delete evs = exits_and_deletes code_outcome ms exits"
      by blast
    from one Inl have f: "filter exit_or_delete evs1 = []" by (simp add: one_exit_def)
    have "length (?x # exits) = length (m # ms)" using l by simp
    moreover have "handle_messages env (m # ms) n h =
        (Inr (n + length (filter (\<lambda>x. acknowledged (code_outcome x)) (?x # exits))),
         h @ (evs1 @ Log ?x # evs))"
      using p Inl run h1 by simp
    moreover have "filter exit_or_delete (evs1 @ Log ?x # evs)
        = exits_and_deletes code_outcome (m # ms) (?x # exits)"
      using f v by (simp add: exits_and_deletes_Cons)
    ultimately show ?thesis by blast
  next
    case (Inr b)
    with one obtain x where f: "filter exit_or_delete evs1 = [Log x]"
      and a: "acknowledged (code_outcome x) = b" by (auto simp: one_exit_def)
    show ?thesis
    proof (cases b)
      case True
      from Cons.IH [of "n + 1" "h1 @ [?d]"] obtain exits evs where
        l: "length exits = length ms"
        and run: "handle_messages env ms (n + 1) (h1 @ [?d]) =
             (Inr (n + 1 + length (filter (\<lambda>x. acknowledged (code_outcome x)) exits)), (h1 @ [?d]) @ evs)"
        and v: "filter exit_or_delete evs = exits_and_deletes code_outcome ms exits"
        by blast
      have "length (x # exits) = length (m # ms)" using l by simp
      moreover have "handle_messages env (m # ms) n h =
          (Inr (n + length (filter (\<lambda>x. acknowledged (code_outcome x)) (x # exits))),
           h @ (evs1 @ ?d # evs))"
        using p Inr True run h1 del a by simp
      moreover have "filter exit_or_delete (evs1 @ ?d # evs)
          = exits_and_deletes code_outcome (m # ms) (x # exits)"
        using f v a True by (simp add: exits_and_deletes_Cons)
      ultimately show ?thesis by blast
    next
      case False
      from Cons.IH [of n h1] obtain exits evs where
        l: "length exits = length ms"
        and run: "handle_messages env ms n h1 =
             (Inr (n + length (filter (\<lambda>x. acknowledged (code_outcome x)) exits)), h1 @ evs)"
        and v: "filter exit_or_delete evs = exits_and_deletes code_outcome ms exits"
        by blast
      have "length (x # exits) = length (m # ms)" using l by simp
      moreover have "handle_messages env (m # ms) n h =
          (Inr (n + length (filter (\<lambda>x. acknowledged (code_outcome x)) (x # exits))),
           h @ (evs1 @ evs))"
        using p Inr False run h1 a by simp
      moreover have "filter exit_or_delete (evs1 @ evs)
          = exits_and_deletes code_outcome (m # ms) (x # exits)"
        using f v a False by (simp add: exits_and_deletes_Cons)
      ultimately show ?thesis by blast
    qed
  qed
qed

lemma get_stripped_obj:
  "get_stripped (JObj kvs) k =
     (case map_of kvs k of
        None \<Rightarrow> Inr []
      | Some v \<Rightarrow>
          if \<not> truthy v then Inr []
          else (case v of JStr s \<Rightarrow> Inr (strip s) | _ \<Rightarrow> Inl AttributeError))"
  by (auto simp: get_stripped_def py_or_def strip_def split: option.splits json.splits)

lemma lower_Nil: "lower c = [] \<longleftrightarrow> c = []"
  by (simp add: lower_def)

text \<open>Evaluations on the concrete messages.\<close>

lemma env_ok_bodies:
  "json_loads env_ok (body_raw not_json_msg) = None"
  "json_loads env_ok (body_raw no_email_msg) = Some no_email_payload"
  "get_stripped no_email_payload ''cuisine'' = Inr ''thai''"
  "get_stripped no_email_payload ''email'' = Inr []"
  "body_raw not_json_msg = ''not json''"
  by code_simp+

lemma process_one_message_run:
  assumes "process_one_message env msg h = (r, h')"
  shows "(\<exists>x. h' = h @ [Log x]) \<or> h' = h \<or>
     (\<exists>payload c0 email.
        json_loads env (body_raw msg) = Some payload \<and>
        get_stripped payload ''cuisine'' = Inr c0 \<and> get_stripped payload ''email'' = Inr email \<and>
        ((\<exists>x. h' = h @ [HttpRequest ''POST'' (''/'' @ OS_INDEX env @ ''/_search'')
                          (search_query (lower c0) (NUM_RESULTS env * 2)), Log x]) \<or>
         h' = h @ [HttpRequest ''POST'' (''/'' @ OS_INDEX env @ ''/_search'')
                     (search_query (lower c0) (NUM_RESULTS env * 2))] \<or>
         (\<exists>ids0 keys.
            fst (os_random_ids_by_cuisine env h (lower c0) (NUM_RESULTS env * 2)) = Inr ids0 \<and>
            dict_fromkeys ids0 = Inr keys \<and> slice_to (NUM_RESULTS env) keys \<noteq> [] \<and>
            stage_details env
              (h @ [HttpRequest ''POST'' (''/'' @ OS_INDEX env @ ''/_search'')
                      (search_query (lower c0) (NUM_RESULTS env * 2))])
              payload (lower c0) email (slice_to (NUM_RESULTS env) keys) = (r, h'))))"
proof (cases "json_loads env (body_raw msg)")
  case None
  with assms show ?thesis by (auto simp: process_one_message_def)
next
  case (Some payload)
  show ?thesis
  proof (cases "get_stripped payload ''cuisine''")
    case (Inl e)
    with assms Some show ?thesis by (auto simp: process_one_message_def)
  next
    case c0: (Inr c0)
    show ?thesis
    proof (cases "get_stripped payload ''email''")
      case (Inl e)
      with assms Some c0 show ?thesis by (auto simp: process_one_message_def)
    next
      case email: (Inr email)
      show ?thesis
      proof (cases "lower c0 = [] \<or> email = []")
        case True
        with assms Some c0 email show ?thesis by (auto simp: process_one_message_def)
      next
        case False
        let ?q = "HttpRequest ''POST'' (''/'' @ OS_INDEX env @ ''/_search'')
                    (search_query (lower c0) (NUM_RESULTS env * 2))"
        obtain r1 h1 where
          os: "os_random_ids_by_cuisine env h (lower c0) (NUM_RESULTS env * 2) = (r1, h1)"
          by (cases "os_random_ids_by_cuisine env h (lower c0) (NUM_RESULTS env * 2)")
        with os_random_ids_by_cuisine_run [of env h "lower c0" "NUM_RESULTS env * 2"]
        have h1: "h1 = h @ [?q]" by simp
        have *: "(\<exists>x. h' = h @ [?q, Log x]) \<or> h' = h @ [?q] \<or>
           (\<exists>ids0 keys.
              fst (os_random_ids_by_cuisine env h (lower c0) (NUM_RESULTS env * 2)) = Inr ids0 \<and>
              dict_fromkeys ids0 = Inr keys \<and> slice_to (NUM_RESULTS env) keys \<noteq> [] \<and>
              stage_details env (h @ [?q]) payload (lower c0) email
                (slice_to (NUM_RESULTS env) keys) = (r, h'))"
        proof (cases r1)
          case (Inl e)
          with assms Some c0 email False os h1 show ?thesis
            by (auto simp: process_one_message_def)
        next
          case ids0: (Inr ids0)
          show ?thesis
          proof (cases "dict_fromkeys ids0")
            case (Inl e)
            with assms Some c0 email False os h1 ids0 show ?thesis
              by (auto simp: process_one_message_def)
          next
            case keys: (Inr keys)
            show ?thesis
            proof (cases "slice_to (NUM_RESULTS env) keys = []")
              case True
              with assms Some c0 email False os h1 ids0 keys show ?thesis
                by (auto simp: process_one_message_def)
            next
              case ne: False
              with assms Some c0 email False os h1 ids0 keys
              have "stage_details env (h @ [?q]) payload (lower c0) email
                      (slice_to (NUM_RESULTS env) keys) = (r, h')"
                by (auto simp: process_one_message_def Let_def)
              with os ids0 keys ne show ?thesis by auto
            qed
          qed
        qed
        from Some c0 email * show ?thesis by blast
      qed
    qed
  qed
qed

lemma stage_details_flat:
  assumes "stage_details env h payload c email ids = (r, h')" and "ids \<noteq> []"
  shows "\<exists>tail. h' = h @ BatchGetItem (DDB_TABLE env) ids # tail \<and>
     ((\<exists>x. tail = [Log x]) \<or>
      (\<exists>details n d t body.
         fst (ddb_get_many env h ids) = Inr details \<and>
         py_get payload ''num_people'' JNull = Inr n \<and>
         py_get payload ''dining_date'' JNull = Inr d \<and>
         py_get payload ''dining_time'' JNull = Inr t \<and>
         format_email \<lparr>cuisine = c, partySize = n, date = d, time = t,
                        results = List.map_filter (lookup_details details) ids\<rparr> = Inr body \<and>
         (tail = [SesSendEmail email (subject_line c) body] \<or>
          (\<exists>x. tail = [SesSendEmail email (subject_line c) body, Log x]))) \<or>
      tail = [])"
proof -
  let ?b = "BatchGetItem (DDB_TABLE env) ids"
  from stage_details_run [OF assms] consider
    (failed) e where "h' = h @ [?b, Log (DynamoDBFailed e)]"
  | (nomatch) "h' = h @ [?b, Log (NoDynamoDBMatches ids)]"
  | (email) details where "fst (ddb_get_many env h ids) = Inr details"
      "stage_email env (h @ [?b]) payload c email (List.map_filter (lookup_details details) ids)
         = (r, h')"
    by auto
  then show ?thesis
  proof cases
    case failed
    then show ?thesis by simp
  next
    case nomatch
    then show ?thesis by simp
  next
    case email
    from stage_email_run [OF email(2)] consider
      (raised) "h' = h @ [?b]"
    | (mail) n d t body tl where
        "py_get payload ''num_people'' JNull = Inr n"
        "py_get payload ''dining_date'' JNull = Inr d"
        "py_get payload ''dining_time'' JNull = Inr t"
        "format_email \<lparr>cuisine = c, partySize = n, date = d, time = t,
                        results = List.map_filter (lookup_details details) ids\<rparr> = Inr body"
        "h' = h @ ?b # SesSendEmail email (subject_line c) body # tl"
        "tl = [] \<or> (\<exists>x. tl = [Log x])"
      by auto
    then show ?thesis
    proof cases
      case raised
      then show ?thesis by simp
    next
      case mail
      with email(1) show ?thesis by auto
    qed
  qed
qed

text \<open>The only read of the store in a call of \<open>process_one_message\<close>.\<close>

lemma process_one_message_batch:
  assumes "process_one_message env msg h = (r, h @ evs)" and "BatchGetItem table ks \<in> set evs"
  shows "\<exists>c ids0 keys tail.
           fst (os_random_ids_by_cuisine env h c (NUM_RESULTS env * 2)) = Inr ids0 \<and>
           dict_fromkeys ids0 = Inr keys \<and> ks = slice_to (NUM_RESULTS env) keys \<and>
           evs = HttpRequest ''POST'' (''/'' @ OS_INDEX env @ ''/_search'')
                   (search_query c (NUM_RESULTS env * 2))
                 # BatchGetItem (DDB_TABLE env) ks # tail"
proof -
  from process_one_message_run [OF assms(1)] assms(2) obtain payload c0 email ids0 keys where
    os: "fst (os_random_ids_by_cuisine env h (lower c0) (NUM_RESULTS env * 2)) = Inr ids0"
    and keys: "dict_fromkeys ids0 = Inr keys" and ne: "slice_to (NUM_RESULTS env) keys \<noteq> []"
    and st: "stage_details env
              (h @ [HttpRequest ''POST'' (''/'' @ OS_INDEX env @ ''/_search'')
                      (search_query (lower c0) (NUM_RESULTS env * 2))])
              payload (lower c0) email (slice_to (NUM_RESULTS env) keys) = (r, h @ evs)"
    by auto
  from stage_details_flat [OF st ne] obtain tail where
    evs: "evs = HttpRequest ''POST'' (''/'' @ OS_INDEX env @ ''/_search'')
                  (search_query (lower c0) (NUM_RESULTS env * 2))
                # BatchGetItem (DDB_TABLE env) (slice_to (NUM_RESULTS env) keys) # tail"
    and tail: "(\<exists>x. tail = [Log x]) \<or> (\<exists>a s b. tail = [SesSendEmail a s b]) \<or>
               (\<exists>a s b x. tail = [SesSendEmail a s b, Log x]) \<or> tail = []"
    by auto
  from tail assms(2) evs have "ks = slice_to (NUM_RESULTS env) keys" by auto
  with os keys evs show ?thesis by blast
qed

text \<open>The only mail sent in a call of \<open>process_one_message\<close>.\<close>

lemma process_one_message_mail:
  assumes "process_one_message env msg h = (r, h @ evs)" and "SesSendEmail a s b \<in> set evs"
  shows "\<exists>payload c0 n d t rs.
           json_loads env (body_raw msg) = Some payload \<and>
           get_stripped payload ''cuisine'' = Inr c0 \<and>
           get_stripped payload ''email'' = Inr a \<and>
           py_get payload ''num_people'' JNull = Inr n \<and>
           py_get payload ''dining_date'' JNull = Inr d \<and>
           py_get payload ''dining_time'' JNull = Inr t \<and>
           s = subject_line (lower c0) \<and>
           format_email \<lparr>cuisine = lower c0, partySize = n, date = d, time = t, results = rs\<rparr>
             = Inr b"
proof -
  from process_one_message_run [OF assms(1)] assms(2) obtain payload c0 email ids0 keys where
    p: "json_loads env (body_raw msg) = Some payload"
       "get_stripped payload ''cuisine'' = Inr c0" "get_stripped payload ''email'' = Inr email"
    and ne: "slice_to (NUM_RESULTS env) keys \<noteq> []"
    and st: "stage_details env
              (h @ [HttpRequest ''POST'' (''/'' @ OS_INDEX env @ ''/_search'')
                      (search_query (lower c0) (NUM_RESULTS env * 2))])
              payload (lower c0) email (slice_to (NUM_RESULTS env) keys) = (r, h @ evs)"
    by auto
  from stage_details_flat [OF st ne] assms(2) obtain n d t rs where
    "py_get payload ''num_people'' JNull = Inr n"
    "py_get payload ''dining_date'' JNull = Inr d"
    "py_get payload ''dining_time'' JNull = Inr t"
    "format_email \<lparr>cuisine = lower c0, partySize = n, date = d, time = t, results = rs\<rparr> = Inr b"
    "a = email" "s = subject_line (lower c0)"
    by auto
  with p show ?thesis by blast
qed

lemma os_random_ids_by_cuisine_snd:
  "snd (os_random_ids_by_cuisine env h c (NUM_RESULTS env * 2)) = h @ [search_request env c]"
  by (simp add: os_random_ids_by_cuisine_run search_request_def)

lemma process_valid:
  assumes "valid_request env msg payload c0 email"
  shows "process_one_message env msg h =
     (case fst (os_random_ids_by_cuisine env h (lower c0) (NUM_RESULTS env * 2)) of
        Inl e \<Rightarrow> (Inr False, h @ [search_request env (lower c0), Log (OpenSearchFailed e)])
      | Inr ids0 \<Rightarrow>
          (case dict_fromkeys ids0 of
             Inl e \<Rightarrow> (Inl e, h @ [search_request env (lower c0)])
           | Inr keys \<Rightarrow>
               if slice_to (NUM_RESULTS env) keys = []
               then (Inr True, h @ [search_request env (lower c0), Log (NoHits (lower c0))])
               else stage_details env (h @ [search_request env (lower c0)]) payload (lower c0)
                      email (slice_to (NUM_RESULTS env) keys)))"
proof -
  obtain r1 h1 where
    os: "os_random_ids_by_cuisine env h (lower c0) (NUM_RESULTS env * 2) = (r1, h1)"
    by (cases "os_random_ids_by_cuisine env h (lower c0) (NUM_RESULTS env * 2)")
  with os_random_ids_by_cuisine_snd [of env h "lower c0"]
  have h1: "h1 = h @ [search_request env (lower c0)]" by simp
  from assms show ?thesis
    unfolding valid_request_def process_one_message_def
    by (simp add: os h1 lower_Nil Let_def split: sum.splits)
qed

lemma path_index_failed:
  assumes "valid_request env msg payload c0 email"
    and "fst (os_random_ids_by_cuisine env h (lower c0) (NUM_RESULTS env * 2)) = Inl e"
  shows "process_one_message env msg h =
           (Inr False, h @ [search_request env (lower c0), Log (OpenSearchFailed e)])"
  by (simp add: process_valid [OF assms(1)] assms(2))

lemma path_not_hashable:
  assumes "valid_request env msg payload c0 email"
    and "fst (os_random_ids_by_cuisine env h (lower c0) (NUM_RESULTS env * 2)) = Inr ids0"
    and "dict_fromkeys ids0 = Inl e"
  shows "process_one_message env msg h = (Inl e, h @ [search_request env (lower c0)])"
  by (simp add: process_valid [OF assms(1)] assms(2,3))

lemma path_sampled:
  assumes "valid_request env msg payload c0 email" and "sampled env h (lower c0) ids0 ids"
  shows "process_one_message env msg h =
           (if ids = []
            then (Inr True, h @ [search_request env (lower c0), Log (NoHits (lower c0))])
            else stage_details env (h @ [search_request env (lower c0)]) payload (lower c0)
                   email ids)"
  using assms(2) unfolding sampled_def
  by (auto simp: process_valid [OF assms(1)] split: sum.splits)

lemma stage_details_failed:
  assumes "ids \<noteq> []" and "batch_get_item env h (DDB_TABLE env) ids = Inl e"
  shows "stage_details env h payload c email ids =
           (Inr False, h @ [BatchGetItem (DDB_TABLE env) ids, Log (DynamoDBFailed e)])"
  using assms by (simp add: stage_details_def ddb_get_many_def)

lemma stage_details_fetched:
  assumes "ids \<noteq> []" and "fetched env h ids res rs"
  shows "stage_details env h payload c email ids =
           (if rs = []
            then (Inr True, h @ [BatchGetItem (DDB_TABLE env) ids, Log (NoDynamoDBMatches ids)])
            else stage_email env (h @ [BatchGetItem (DDB_TABLE env) ids]) payload c email rs)"
  using assms by (simp add: stage_details_def ddb_get_many_def fetched_def Let_def)

lemma stage_email_composed:
  assumes "composed payload c rs body"
  shows "stage_email env h payload c email rs =
           (case ses_send_email env h email (subject_line c) body of
              Inr message_id \<Rightarrow>
                (Inr True, h @ [SesSendEmail email (subject_line c) body,
                                Log (SentSuggestions email)])
            | Inl e \<Rightarrow>
                if e = ClientError
                then (Inr False, h @ [SesSendEmail email (subject_line c) body,
                                      Log (FailedToSendEmail email)])
                else (Inl e, h @ [SesSendEmail email (subject_line c) body]))"
  using assms unfolding composed_def stage_email_def
  by (auto simp: send_email_def split: sum.splits prod.splits)

section \<open>The claims about the orchestrator\<close>

text \<open>
  Claim C1, as stated, fails for a body that is not JSON: \<^verbatim>\<open>process_one_message\<close> returns
  \<^verbatim>\<open>False\<close>, and the loop of the handler goes on without deleting the message.
\<close>

theorem not_json_counterexample:
  "json_loads env_ok (body_raw not_json_msg) = None
   \<and> process_one_message env_ok not_json_msg [] = (Inr False, [Log (BadSQSBody ''not json'')])
   \<and> handle_messages env_ok [not_json_msg] 0 [] = (Inr 0, [Log (BadSQSBody ''not json'')])"
  by code_simp

text \<open>
  Claim C1, amended. When the body is not JSON, \<^verbatim>\<open>process_one_message\<close> logs the bad body,
  returns \<^verbatim>\<open>False\<close> and calls no service, and the handler goes on to the next message
  without deleting this one. When the body decodes to a payload whose cuisine and e-mail
  address can both be trimmed (each is a string or a falsy value) and one of them is
  empty after trimming, \<^verbatim>\<open>process_one_message\<close> logs the missing field, returns \<^verbatim>\<open>True\<close>
  and calls no service, and the handler deletes the message and counts it. Trimming a
  field of a JSON object gives the empty string for a missing key and for a falsy value,
  and the stripped string for a string.
\<close>

theorem malformed_payload:
  "(json_loads env (body_raw msg) = None \<longrightarrow>
      process_one_message env msg h = (Inr False, h @ [Log (BadSQSBody (body_raw msg))]) \<and>
      handle_messages env (msg # ms) n h
        = handle_messages env ms n (h @ [Log (BadSQSBody (body_raw msg))]))
   \<and> (json_loads env (body_raw msg) = Some payload \<and>
        get_stripped payload ''cuisine'' = Inr c \<and> get_stripped payload ''email'' = Inr e \<and>
        (c = [] \<or> e = []) \<longrightarrow>
      process_one_message env msg h = (Inr True, h @ [Log (MissingCuisineOrEmail payload)]) \<and>
      (delete_message env (h @ [Log (MissingCuisineOrEmail payload)]) (ReceiptHandle msg) = None \<longrightarrow>
         handle_messages env (msg # ms) n h
           = handle_messages env ms (n + 1)
               (h @ [Log (MissingCuisineOrEmail payload), SqsDeleteMessage (ReceiptHandle msg)])))
   \<and> (\<forall>kvs k. get_stripped (JObj kvs) k =
         (case map_of kvs k of
            None \<Rightarrow> Inr []
          | Some v \<Rightarrow>
              if \<not> truthy v then Inr []
              else (case v of JStr s \<Rightarrow> Inr (strip s) | _ \<Rightarrow> Inl AttributeError)))"
proof -
  have a: "process_one_message env msg h = (Inr False, h @ [Log (BadSQSBody (body_raw msg))])"
    if "json_loads env (body_raw msg) = None"
    using that by (simp add: process_one_message_def)
  have b: "process_one_message env msg h = (Inr True, h @ [Log (MissingCuisineOrEmail payload)])"
    if "json_loads env (body_raw msg) = Some payload" "get_stripped payload ''cuisine'' = Inr c"
      "get_stripped payload ''email'' = Inr e" "c = [] \<or> e = []"
    using that by (auto simp: process_one_message_def lower_Nil)
  show ?thesis
    using a b by (auto simp: get_stripped_obj simp del: handle_messages.simps(2))
       (simp_all add: a b)
qed

theorem malformed_payload_witness:
  "json_loads env_ok (body_raw not_json_msg) = None
   \<and> process_one_message env_ok not_json_msg [] = (Inr False, [Log (BadSQSBody ''not json'')])
   \<and> json_loads env_ok (body_raw no_email_msg) = Some no_email_payload
   \<and> get_stripped no_email_payload ''cuisine'' = Inr ''thai''
   \<and> get_stripped no_email_payload ''email'' = Inr []
   \<and> process_one_message env_ok no_email_msg []
       = (Inr True, [Log (MissingCuisineOrEmail no_email_payload)])
   \<and> delete_message env_ok [Log (MissingCuisineOrEmail no_email_payload)] (ReceiptHandle no_email_msg)
       = None
   \<and> handle_messages env_ok [no_email_msg] 0 []
       = handle_messages env_ok [] (0 + 1)
           [Log (MissingCuisineOrEmail no_email_payload), SqsDeleteMessage (ReceiptHandle no_email_msg)]"
proof -
  have d: "delete_message env_ok [Log (MissingCuisineOrEmail no_email_payload)]
             (ReceiptHandle no_email_msg) = None"
    by (simp add: env_ok_def)
  from malformed_payload [of env_ok not_json_msg "[]" "[]" 0] env_ok_bodies
  have "process_one_message env_ok not_json_msg [] = (Inr False, [Log (BadSQSBody ''not json'')])"
    by simp
  moreover
  from malformed_payload [of env_ok no_email_msg "[]" "[]" 0 no_email_payload "''thai''" "[]"]
    env_ok_bodies d
  have "process_one_message env_ok no_email_msg []
          = (Inr True, [Log (MissingCuisineOrEmail no_email_payload)])
        \<and> handle_messages env_ok [no_email_msg] 0 []
          = handle_messages env_ok [] (0 + 1)
              [Log (MissingCuisineOrEmail no_email_payload), SqsDeleteMessage (ReceiptHandle no_email_msg)]"
    by simp
  ultimately show ?thesis using env_ok_bodies d by simp
qed

text \<open>
  Claim C2, as stated, fails for a message that is not JSON: the state machine of the
  specification ends it as \<open>DiscardMalformed\<close>, an outcome that is acknowledged, but the
  handler does not delete it and reports no message processed.
\<close>

theorem not_json_not_deleted_counterexample:
  "lambda_handler env_not_json []
     = (Inr \<lparr>ok = True, processed = 0\<rparr>, [SqsReceiveMessage 10 30 3, Log (BadSQSBody ''not json'')])
   \<and> spec_outcome (BadSQSBody ''not json'') = DiscardMalformed
   \<and> acknowledged DiscardMalformed
   \<and> filter exit_or_delete [SqsReceiveMessage 10 30 3, Log (BadSQSBody ''not json'')]
       \<noteq> exits_and_deletes spec_outcome [not_json_msg] [BadSQSBody ''not json'']"
  by code_simp

text \<open>
  Claim C2, amended. When the queue answers the receive call and no delete call fails,
  \<^verbatim>\<open>lambda_handler\<close> asks for at most 10 messages, takes for each message received exactly
  one exit, in order, deletes the message right after its exit exactly when the outcome
  of the exit is acknowledged, and returns \<^verbatim>\<open>ok\<close> with the number of messages deleted,
  whatever happened to the single messages. The outcome is that of the specification
  except for a body that is not JSON, which is a transient failure: the acknowledged
  exits are a missing cuisine or address, no hits, no matches in the store, and a mail
  sent; a failure of the index, of the store or of the mail service, an exception of
  \<^verbatim>\<open>process_one_message\<close> and a body that is not JSON leave the message in the queue.
\<close>

theorem acknowledgment_policy:
  assumes "receive_message env h = Inr resp"
    and "\<forall>h' receipt. delete_message env h' receipt = None"
  shows "\<exists>exits evs.
           length exits = length (messages_of resp) \<and>
           lambda_handler env h =
             (Inr \<lparr>ok = True,
                   processed = length (filter (\<lambda>x. acknowledged (code_outcome x)) exits)\<rparr>,
              h @ SqsReceiveMessage 10 30 3 # evs) \<and>
           filter exit_or_delete evs = exits_and_deletes code_outcome (messages_of resp) exits \<and>
           (\<forall>x. acknowledged (code_outcome x) \<longleftrightarrow>
                  (\<exists>p. x = MissingCuisineOrEmail p) \<or> (\<exists>c. x = NoHits c) \<or>
                  (\<exists>ids. x = NoDynamoDBMatches ids) \<or> (\<exists>a. x = SentSuggestions a))"
proof -
  have cl: "acknowledged (code_outcome x) \<longleftrightarrow>
                  (\<exists>p. x = MissingCuisineOrEmail p) \<or> (\<exists>c. x = NoHits c) \<or>
                  (\<exists>ids. x = NoDynamoDBMatches ids) \<or> (\<exists>a. x = SentSuggestions a)" for x
    by (cases x) simp_all
  from handle_messages_run [OF assms(2), of "messages_of resp" 0 "h @ [SqsReceiveMessage 10 30 3]"]
  obtain exits evs where l: "length exits = length (messages_of resp)"
    and run: "handle_messages env (messages_of resp) 0 (h @ [SqsReceiveMessage 10 30 3]) =
             (Inr (0 + length (filter (\<lambda>x. acknowledged (code_outcome x)) exits)),
              (h @ [SqsReceiveMessage 10 30 3]) @ evs)"
    and v: "filter exit_or_delete evs = exits_and_deletes code_outcome (messages_of resp) exits"
    by blast
  have "lambda_handler env h =
             (Inr \<lparr>ok = True,
                   processed = length (filter (\<lambda>x. acknowledged (code_outcome x)) exits)\<rparr>,
              h @ SqsReceiveMessage 10 30 3 # evs)"
  proof (cases "messages_of resp = []")
    case True
    with l run show ?thesis using assms(1) by (simp add: lambda_handler_def)
  next
    case False
    with run show ?thesis using assms(1) by (simp add: lambda_handler_def)
  qed
  with l v cl show ?thesis by blast
qed

theorem acknowledgment_policy_witness:
  "receive_message env_ok [] = Inr \<lparr>Messages = Some [italian_msg, no_email_msg, not_json_msg]\<rparr>
   \<and> (\<forall>h' receipt. delete_message env_ok h' receipt = None)
   \<and> (\<exists>exits evs. length exits = 3 \<and>
         lambda_handler env_ok [] =
           (Inr \<lparr>ok = True,
                 processed = length (filter (\<lambda>x. acknowledged (code_outcome x)) exits)\<rparr>,
            SqsReceiveMessage 10 30 3 # evs) \<and>
         filter exit_or_delete evs
           = exits_and_deletes code_outcome [italian_msg, no_email_msg, not_json_msg] exits)"
proof -
  have r: "receive_message env_ok [] = Inr \<lparr>Messages = Some [italian_msg, no_email_msg, not_json_msg]\<rparr>"
    and d: "\<forall>h' receipt. delete_message env_ok h' receipt = None"
    by (simp_all add: env_ok_def)
  have m: "messages_of \<lparr>Messages = Some [italian_msg, no_email_msg, not_json_msg]\<rparr>
             = [italian_msg, no_email_msg, not_json_msg]"
    by (simp add: messages_of_def)
  from acknowledgment_policy [OF r d] obtain exits evs where
    "length exits = length [italian_msg, no_email_msg, not_json_msg]"
    "lambda_handler env_ok [] =
           (Inr \<lparr>ok = True,
                 processed = length (filter (\<lambda>x. acknowledged (code_outcome x)) exits)\<rparr>,
            [] @ SqsReceiveMessage 10 30 3 # evs)"
    "filter exit_or_delete evs
           = exits_and_deletes code_outcome [italian_msg, no_email_msg, not_json_msg] exits"
    unfolding m by blast
  then have "\<exists>exits evs. length exits = 3 \<and>
         lambda_handler env_ok [] =
           (Inr \<lparr>ok = True,
                 processed = length (filter (\<lambda>x. acknowledged (code_outcome x)) exits)\<rparr>,
            SqsReceiveMessage 10 30 3 # evs) \<and>
         filter exit_or_delete evs
           = exits_and_deletes code_outcome [italian_msg, no_email_msg, not_json_msg] exits"
    by (intro exI [of _ exits] exI [of _ evs]) simp
  with r d show ?thesis by blast
qed

end
